theory Spec2Isabelle
  imports Main "HOL-Library.Word"
begin

unbundle bit_operations_syntax

section \<open>Data model of kernel/time/clockevents.c\<close>

text \<open>
  Fixed-width C types are words: \<open>u32\<close> and \<open>u64\<close> wrap around, \<open>ktime_t\<close> is the
  scalar \<open>tv64\<close> (an \<open>s64\<close>), kept as a 64-bit word and read with \<open>sint\<close> wherever the
  source compares it as a signed value. The width of \<open>unsigned long\<close> is fixed by the
  target ABI and not by this file (32 bits on ARM, 64 bits on LP64 targets), so it is
  the type parameter \<open>'l\<close> of the device: \<open>32 clock_event_device\<close> is the ILP32 build.

  Shifts: \<open>push_bit\<close> and \<open>drop_bit\<close> fill with zeros for every shift count. C leaves a
  shift by at least the width of the promoted operand undefined; a statement below says
  so where it depends on such a shift.
\<close>

type_synonym u32 = "32 word"
type_synonym u64 = "64 word"
type_synonym ktime = "64 word"

text \<open>
  Modelled from the spec: \<open>enum clock_event_mode\<close> is declared in
  \<open>linux/clockchips.h\<close>, which is not among the sources; the spec lists the modes
  UNUSED (initial), SHUTDOWN, PERIODIC and ONESHOT.
\<close>

datatype clock_event_mode =
  CLOCK_EVT_MODE_UNUSED
| CLOCK_EVT_MODE_SHUTDOWN
| CLOCK_EVT_MODE_PERIODIC
| CLOCK_EVT_MODE_ONESHOT

text \<open>
  The fields of \<open>struct clock_event_device\<close> that clockevents.c reads or writes. The
  function pointers of the struct are kept apart, in \<open>clock_event_ops\<close>; the
  \<open>list\<close> node is the position of the device's address in one of the two lists of
  the registry. A NULL \<open>cpumask\<close> or \<open>name\<close> is \<open>None\<close>.
\<close>

record (overloaded) ('l::len) clock_event_device =
  next_event :: ktime
  max_delta_ns :: u64
  min_delta_ns :: u64
  mult :: u32
  shift :: u32
  mode :: clock_event_mode
  features :: u32
  retries :: "'l word"
  min_delta_ticks :: "'l word"
  max_delta_ticks :: "'l word"
  name :: "string option"
  cpumask :: "nat set option"

text \<open>
  Modelled from the spec: the capability flag "supports absolute-time arming" and the
  constants \<open>KTIME_MAX\<close>, \<open>ETIME\<close> and \<open>NSEC_PER_SEC\<close> come from headers that are not
  among the sources; the values are those of the kernel headers.
\<close>

definition CLOCK_EVT_FEAT_KTIME :: u32 where
  "CLOCK_EVT_FEAT_KTIME = 0x4"

definition KTIME_MAX :: ktime where
  "KTIME_MAX = 0x7FFFFFFFFFFFFFFF"

definition ETIME :: int where
  "ETIME = 62"

definition NSEC_PER_SEC :: nat where
  "NSEC_PER_SEC = 1000000000"

text \<open>
  The build configuration: \<open>HZ\<close> and whether
  \<open>CONFIG_GENERIC_CLOCKEVENTS_MIN_ADJUST\<close> selects the adaptive minimum-delta policy.
\<close>

record kconfig =
  HZ :: nat
  GENERIC_CLOCKEVENTS_MIN_ADJUST :: bool

text \<open>
  The driver callbacks and the monotonic clock are external. They act on a hardware
  state \<open>'h\<close> of their own: a callback sees the device and the hardware state and
  returns its C \<open>int\<close> result with the new hardware state. The callbacks do not write
  the fields of the device that this file owns.
\<close>

record (overloaded) ('l::len, 'h) clock_event_ops =
  set_mode :: "clock_event_mode \<Rightarrow> 'l clock_event_device \<Rightarrow> 'h \<Rightarrow> 'h"
  set_next_event :: "'l word \<Rightarrow> 'l clock_event_device \<Rightarrow> 'h \<Rightarrow> int \<times> 'h"
  set_next_ktime :: "ktime \<Rightarrow> 'l clock_event_device \<Rightarrow> 'h \<Rightarrow> int \<times> 'h"
  ktime_get :: "'h \<Rightarrow> ktime \<times> 'h"

text \<open>Every callback invocation is recorded, in order, with its argument.\<close>

datatype hw_call =
  Set_mode clock_event_mode
| Set_next_event nat
| Set_next_ktime ktime

text \<open>
  The state a device-level operation runs in: the device, the hardware state, the
  callback invocations so far and the number of \<open>WARN_ON\<close> sites reached.
\<close>

record (overloaded) ('l::len, 'h) world =
  dev :: "'l clock_event_device"
  hw :: 'h
  calls :: "hw_call list"
  warnings :: nat

section \<open>Scaled math: ticks to nanoseconds\<close>

text \<open>Line 33 and lines 46-47: the shifted latch, clamped when the shift overflowed.\<close>

definition cev_clc :: "('l::len) word \<Rightarrow> 'l clock_event_device \<Rightarrow> u64" where
  "cev_clc latch evt =
     (let clc = push_bit (unat (shift evt)) (ucast latch :: u64)
      in if drop_bit (unat (shift evt)) clc \<noteq> ucast latch then - 1 else clc)"

text \<open>Line 40: the rounding term.\<close>

definition cev_rnd :: "('l::len) clock_event_device \<Rightarrow> u64" where
  "cev_rnd evt = ucast (mult evt) - 1"

text \<open>Lines 68-69: the condition under which \<open>clc += rnd\<close> runs.\<close>

definition cev_add_rnd :: "('l::len) word \<Rightarrow> 'l clock_event_device \<Rightarrow> bool \<Rightarrow> bool" where
  "cev_add_rnd latch evt ismax \<longleftrightarrow>
     (- 1 - cev_clc latch evt > cev_rnd evt) \<and>
     (\<not> ismax \<or> mult evt \<le> push_bit (unat (shift evt)) (1 :: u32))"

definition cev_delta2ns ::
  "('l::len) word \<Rightarrow> ('l, 'h) world \<Rightarrow> bool \<Rightarrow> u64 \<times> ('l, 'h) world" where
  "cev_delta2ns latch w ismax =
     (let w1 = (if mult (dev w) = 0
                then w\<lparr>dev := (dev w)\<lparr>mult := 1\<rparr>, warnings := warnings w + 1\<rparr>
                else w);
          evt = dev w1;
          clc = cev_clc latch evt;
          clc = (if cev_add_rnd latch evt ismax then clc + cev_rnd evt else clc);
          clc = clc div ucast (mult evt)
      in (if clc > 1000 then clc else 1000, w1))"

definition clockevent_delta2ns ::
  "('l::len) word \<Rightarrow> ('l, 'h) world \<Rightarrow> u64 \<times> ('l, 'h) world" where
  "clockevent_delta2ns latch w = cev_delta2ns latch w False"

section \<open>Mode state machine\<close>

definition clockevents_set_mode ::
  "('l::len, 'h) clock_event_ops \<Rightarrow> ('l, 'h) world \<Rightarrow> clock_event_mode \<Rightarrow> ('l, 'h) world" where
  "clockevents_set_mode ops w md =
     (if mode (dev w) \<noteq> md then
        let w1 = w\<lparr>hw := set_mode ops md (dev w) (hw w), calls := calls w @ [Set_mode md]\<rparr>;
            w2 = w1\<lparr>dev := (dev w1)\<lparr>mode := md\<rparr>\<rparr>
        in if md = CLOCK_EVT_MODE_ONESHOT \<and> mult (dev w2) = 0
           then w2\<lparr>dev := (dev w2)\<lparr>mult := 1\<rparr>, warnings := warnings w2 + 1\<rparr>
           else w2
      else w)"

definition clockevents_shutdown ::
  "('l::len, 'h) clock_event_ops \<Rightarrow> ('l, 'h) world \<Rightarrow> ('l, 'h) world" where
  "clockevents_shutdown ops w =
     (let w1 = clockevents_set_mode ops w CLOCK_EVT_MODE_SHUTDOWN
      in w1\<lparr>dev := (dev w1)\<lparr>next_event := KTIME_MAX\<rparr>\<rparr>)"

section \<open>Event programmer\<close>

text \<open>
  The conversion \<open>((unsigned long long) delta * dev->mult) >> dev->shift\<close> of lines
  154, 180 and 214.
\<close>

definition ns2clc :: "u64 \<Rightarrow> ('l::len) clock_event_device \<Rightarrow> u64" where
  "ns2clc delta d = drop_bit (unat (shift d)) (delta * ucast (mult d))"

definition MIN_DELTA_LIMIT :: "kconfig \<Rightarrow> u64" where
  "MIN_DELTA_LIMIT cfg = word_of_nat (NSEC_PER_SEC div HZ cfg)"

text \<open>The \<open>printk\<close> diagnostics are not part of the state.\<close>

definition clockevents_increase_min_delta ::
  "kconfig \<Rightarrow> ('l::len, 'h) world \<Rightarrow> int \<times> ('l, 'h) world" where
  "clockevents_increase_min_delta cfg w =
     (if min_delta_ns (dev w) \<ge> MIN_DELTA_LIMIT cfg then
        (- ETIME, w\<lparr>dev := (dev w)\<lparr>next_event := KTIME_MAX\<rparr>\<rparr>)
      else
        let d = dev w;
            d1 = (if min_delta_ns d < 5000
                  then d\<lparr>min_delta_ns := 5000\<rparr>
                  else d\<lparr>min_delta_ns := min_delta_ns d + drop_bit 1 (min_delta_ns d)\<rparr>);
            d2 = (if min_delta_ns d1 > MIN_DELTA_LIMIT cfg
                  then d1\<lparr>min_delta_ns := MIN_DELTA_LIMIT cfg\<rparr>
                  else d1)
        in (0, w\<lparr>dev := d2\<rparr>))"

text \<open>
  The adaptive policy (\<open>CONFIG_GENERIC_CLOCKEVENTS_MIN_ADJUST\<close>): the \<open>for (i = 0;;)\<close>
  loop of lines 146-163, with the loop counter as an argument.
\<close>

function clockevents_program_min_delta_loop ::
  "kconfig \<Rightarrow> ('l::len, 'h) clock_event_ops \<Rightarrow> nat \<Rightarrow> ('l, 'h) world \<Rightarrow> int \<times> ('l, 'h) world" where
  "clockevents_program_min_delta_loop cfg ops i w =
     (let delta = min_delta_ns (dev w);
          t = ktime_get ops (hw w);
          w1 = w\<lparr>dev := (dev w)\<lparr>next_event := fst t + delta\<rparr>, hw := snd t\<rparr>
      in if mode (dev w1) = CLOCK_EVT_MODE_SHUTDOWN then (0, w1)
         else
           let w2 = w1\<lparr>dev := (dev w1)\<lparr>retries := retries (dev w1) + 1\<rparr>\<rparr>;
               evt = (ucast (ns2clc delta (dev w2)) :: 'l word);
               r = set_next_event ops evt (dev w2) (hw w2);
               w3 = w2\<lparr>hw := snd r, calls := calls w2 @ [Set_next_event (unat evt)]\<rparr>
           in if fst r = 0 then (0, w3)
              else if i + 1 > 2 then
                (let r' = clockevents_increase_min_delta cfg w3
                 in if fst r' \<noteq> 0 then (- ETIME, snd r')
                    else clockevents_program_min_delta_loop cfg ops 0 (snd r'))
              else clockevents_program_min_delta_loop cfg ops (i + 1) w3)"
  by pat_completeness auto
termination
proof (relation "(\<lambda>(cfg, ops, i, w). unat (MIN_DELTA_LIMIT cfg) - unat (min_delta_ns (dev w)))
                  <*mlex*> measure (\<lambda>(cfg, ops, i, w). 3 - i)", goal_cases)
  case 1
  show ?case by (simp add: wf_mlex)
next
  case (2 cfg ops i w delta t w1 w2 evt r w3 r')
  define m where "m = min_delta_ns (dev w)"
  define lim where "lim = MIN_DELTA_LIMIT cfg"
  have lim: "unat lim \<le> 1000000000"
  proof -
    have "unat lim \<le> NSEC_PER_SEC div HZ cfg"
      unfolding lim_def MIN_DELTA_LIMIT_def by (simp add: unat_of_nat)
    also have "\<dots> \<le> 1000000000"
      unfolding NSEC_PER_SEC_def by (rule div_le_dividend)
    finally show ?thesis .
  qed
  have m3: "min_delta_ns (dev w3) = m"
    using 2 by (simp add: m_def)
  have ok: "fst (clockevents_increase_min_delta cfg w3) = 0"
    using 2 by simp
  have lt: "m < lim"
    using ok m3 unfolding clockevents_increase_min_delta_def lim_def
    by (simp add: ETIME_def not_le split: if_splits)
  then have ltn: "unat m < unat lim"
    by (simp add: word_less_nat_alt)
  have half: "unat (drop_bit 1 m) = unat m div 2"
    by (simp add: drop_bit_eq_div unat_div)
  have grow: "unat (m + drop_bit 1 m) = unat m + unat m div 2"
  proof -
    have "unat m + unat (drop_bit 1 m) < 2 ^ LENGTH(64)"
      using ltn lim half by simp
    then have "unat (m + drop_bit 1 m) = unat m + unat (drop_bit 1 m)"
      by (simp only: unat_add_lem)
    then show ?thesis
      using half by simp
  qed
  have new: "unat m < unat (min_delta_ns (dev (snd (clockevents_increase_min_delta cfg w3))))"
    using lt ltn grow m3 unfolding clockevents_increase_min_delta_def lim_def
    by (auto simp: Let_def not_le word_less_nat_alt)
  have le: "unat (min_delta_ns (dev (snd (clockevents_increase_min_delta cfg w3)))) \<le> unat lim"
    using lt m3 unfolding clockevents_increase_min_delta_def lim_def
    by (auto simp: Let_def not_le not_less word_le_nat_alt word_less_nat_alt)
  have r': "r' = clockevents_increase_min_delta cfg w3"
    using 2 by fast
  have "unat lim - unat (min_delta_ns (dev (snd r'))) < unat lim - unat m"
    using new le ltn unfolding r' by arith
  then show ?case
    by (simp add: mlex_iff m_def lim_def)
next
  case (3 cfg ops i w delta t w1 w2 evt r w3)
  then show ?case
    by (simp add: mlex_iff)
qed

declare clockevents_program_min_delta_loop.simps [simp del]

definition clockevents_program_min_delta_adjust ::
  "kconfig \<Rightarrow> ('l::len, 'h) clock_event_ops \<Rightarrow> ('l, 'h) world \<Rightarrow> int \<times> ('l, 'h) world" where
  "clockevents_program_min_delta_adjust cfg ops w = clockevents_program_min_delta_loop cfg ops 0 w"

text \<open>The single-attempt policy of lines 168-182.\<close>

definition clockevents_program_min_delta_once ::
  "('l::len, 'h) clock_event_ops \<Rightarrow> ('l, 'h) world \<Rightarrow> int \<times> ('l, 'h) world" where
  "clockevents_program_min_delta_once ops w =
     (let delta = min_delta_ns (dev w);
          t = ktime_get ops (hw w);
          w1 = w\<lparr>dev := (dev w)\<lparr>next_event := fst t + delta\<rparr>, hw := snd t\<rparr>
      in if mode (dev w1) = CLOCK_EVT_MODE_SHUTDOWN then (0, w1)
         else
           let w2 = w1\<lparr>dev := (dev w1)\<lparr>retries := retries (dev w1) + 1\<rparr>\<rparr>;
               evt = (ucast (ns2clc delta (dev w2)) :: 'l word);
               r = set_next_event ops evt (dev w2) (hw w2)
           in (fst r, w2\<lparr>hw := snd r, calls := calls w2 @ [Set_next_event (unat evt)]\<rparr>))"

text \<open>The \<open>#ifdef\<close> of line 113 chooses between the two at build time.\<close>

definition clockevents_program_min_delta ::
  "kconfig \<Rightarrow> ('l::len, 'h) clock_event_ops \<Rightarrow> ('l, 'h) world \<Rightarrow> int \<times> ('l, 'h) world" where
  "clockevents_program_min_delta cfg ops w =
     (if GENERIC_CLOCKEVENTS_MIN_ADJUST cfg
      then clockevents_program_min_delta_adjust cfg ops w
      else clockevents_program_min_delta_once ops w)"

text \<open>
  \<open>min\<close> and \<open>max\<close> of lines 211-212 compare two \<open>int64_t\<close> values, so the words are
  compared through \<open>sint\<close>.
\<close>

definition clockevents_program_event ::
  "kconfig \<Rightarrow> ('l::len, 'h) clock_event_ops \<Rightarrow> ('l, 'h) world \<Rightarrow> ktime \<Rightarrow> bool
     \<Rightarrow> int \<times> ('l, 'h) world" where
  "clockevents_program_event cfg ops w expires force =
     (if sint expires < 0 then (- ETIME, w\<lparr>warnings := warnings w + 1\<rparr>)
      else
        let w1 = w\<lparr>dev := (dev w)\<lparr>next_event := expires\<rparr>\<rparr>
        in if mode (dev w1) = CLOCK_EVT_MODE_SHUTDOWN then (0, w1)
           else if features (dev w1) AND CLOCK_EVT_FEAT_KTIME \<noteq> 0 then
             (let r = set_next_ktime ops expires (dev w1) (hw w1)
              in (fst r, w1\<lparr>hw := snd r, calls := calls w1 @ [Set_next_ktime expires]\<rparr>))
           else
             let t = ktime_get ops (hw w1);
                 w2 = w1\<lparr>hw := snd t\<rparr>;
                 delta = expires - fst t
             in if sint delta \<le> 0 then
                  (if force then clockevents_program_min_delta cfg ops w2 else (- ETIME, w2))
                else
                  let delta = (if sint delta < sint (max_delta_ns (dev w2))
                               then delta else max_delta_ns (dev w2));
                      delta = (if sint delta > sint (min_delta_ns (dev w2))
                               then delta else min_delta_ns (dev w2));
                      evt = (ucast (ns2clc delta (dev w2)) :: 'l word);
                      r = set_next_event ops evt (dev w2) (hw w2);
                      w3 = w2\<lparr>hw := snd r, calls := calls w2 @ [Set_next_event (unat evt)]\<rparr>
                  in if fst r \<noteq> 0 \<and> force
                     then clockevents_program_min_delta cfg ops w3
                     else (fst r, w3))"

text \<open>
  The state after one pass through the loop body in which the arming call failed
  (lines 147-155): \<open>next_event\<close> and \<open>retries\<close> written, the clock read, the callback
  invoked and recorded.
\<close>

definition arm_failed ::
  "('l::len, 'h) clock_event_ops \<Rightarrow> ('l, 'h) world \<Rightarrow> ('l, 'h) world" where
  "arm_failed ops w =
     (let delta = min_delta_ns (dev w);
          t = ktime_get ops (hw w);
          d = (dev w)\<lparr>next_event := fst t + delta, retries := retries (dev w) + 1\<rparr>;
          evt = (ucast (ns2clc delta d) :: 'l word)
      in w\<lparr>dev := d, hw := snd (set_next_event ops evt d (snd t)),
           calls := calls w @ [Set_next_event (unat evt)]\<rparr>)"

text \<open>
  The growth rule in the spec's words: a floor of 5000 ns, then a factor of 1.5 per
  growth step, capped at the ceiling \<open>lim\<close>; and the values of \<open>min_delta_ns\<close> it
  runs through from \<open>m\<close> up to the first one that has reached the ceiling.
\<close>

definition growth_step :: "nat \<Rightarrow> nat \<Rightarrow> nat" where
  "growth_step lim m = min lim (if m < 5000 then 5000 else m + m div 2)"

function min_delta_schedule :: "nat \<Rightarrow> nat \<Rightarrow> nat list" where
  "min_delta_schedule lim m =
     (if lim \<le> m then [m] else m # min_delta_schedule lim (growth_step lim m))"
  by pat_completeness auto
termination
  by (relation "measure (\<lambda>(lim, m). lim - m)") (auto simp: growth_step_def)

declare min_delta_schedule.simps [simp del]

section \<open>Device registry and notification\<close>

text \<open>
  A device is known to the registry by its address. The two kernel lists are lists of
  addresses with the entry after the list head first: \<open>list_add\<close> inserts behind the
  head, so it is \<open>#\<close>, and \<open>list_for_each_entry\<close> walks from the front. A
  \<open>list_head\<close> node is on one list at a time, and \<open>list_del\<close> unlinks it.
\<close>

type_synonym dev_ptr = nat

text \<open>
  Modelled from the spec: the notification reasons are declared in
  \<open>linux/clockchips.h\<close>, which is not among the sources; the spec names device-added
  and processor-dead and lets every other reason pass through. The \<open>void *\<close> payload
  is a device address for device-added and the address of the processor number for
  processor-dead.
\<close>

datatype clock_event_notify =
  CLOCK_EVT_NOTIFY_ADD
| CLOCK_EVT_NOTIFY_CPU_DEAD
| CLOCK_EVT_NOTIFY_OTHER nat

datatype notify_arg = Dev_arg dev_ptr | Cpu_arg nat | Other_arg

text \<open>What stops the kernel: a failed \<open>BUG_ON\<close>, or a NULL or mistyped pointer.\<close>

datatype kernel_error = BUG | BAD_POINTER

record (overloaded) ('l::len) registry =
  devmem :: "dev_ptr \<Rightarrow> 'l clock_event_device"
  clockevent_devices :: "dev_ptr list"
  clockevents_released :: "dev_ptr list"
  clockevents_chain_calls :: "(clock_event_notify \<times> notify_arg) list"
  tick_broadcast_device :: "dev_ptr option"
  warnings_reg :: nat

text \<open>The processor context of a call: \<open>num_possible_cpus()\<close> and \<open>smp_processor_id()\<close>.\<close>

record cpu_env =
  num_possible_cpus :: nat
  smp_processor_id :: nat

text \<open>
  Modelled from the spec: \<open>raw_notifier_call_chain\<close> (kernel/notifier.c) is not among
  the sources. The spec has every subscriber invoked with \<open>(reason, payload)\<close>; the
  model records each broadcast, in order.
\<close>

definition clockevents_do_notify ::
  "clock_event_notify \<Rightarrow> notify_arg \<Rightarrow> ('l::len) registry \<Rightarrow> 'l registry" where
  "clockevents_do_notify reason arg r =
     r\<lparr>clockevents_chain_calls := clockevents_chain_calls r @ [(reason, arg)]\<rparr>"

function clockevents_notify_released :: "('l::len) registry \<Rightarrow> 'l registry" where
  "clockevents_notify_released r =
     (case clockevents_released r of
        [] \<Rightarrow> r
      | d # rest \<Rightarrow>
          clockevents_notify_released
            (clockevents_do_notify CLOCK_EVT_NOTIFY_ADD (Dev_arg d)
               (r\<lparr>clockevents_released := rest,
                   clockevent_devices := d # clockevent_devices r\<rparr>)))"
  by pat_completeness auto
termination
  by (relation "measure (\<lambda>r. length (clockevents_released r))")
     (simp_all add: clockevents_do_notify_def)

declare clockevents_notify_released.simps [simp del]

definition clockevents_register_device ::
  "cpu_env \<Rightarrow> ('l::len) registry \<Rightarrow> dev_ptr \<Rightarrow> kernel_error + 'l registry" where
  "clockevents_register_device env r p =
     (if mode (devmem r p) \<noteq> CLOCK_EVT_MODE_UNUSED then Inl BUG
      else
        let r1 = (if cpumask (devmem r p) = None
                  then r\<lparr>devmem := (devmem r)
                               (p := (devmem r p)\<lparr>cpumask := Some {smp_processor_id env}\<rparr>),
                         warnings_reg := (if num_possible_cpus env > 1
                                          then warnings_reg r + 1 else warnings_reg r)\<rparr>
                  else r);
            r2 = r1\<lparr>clockevent_devices := p # clockevent_devices r1\<rparr>;
            r3 = clockevents_do_notify CLOCK_EVT_NOTIFY_ADD (Dev_arg p) r2
        in Inr (clockevents_notify_released r3))"

text \<open>
  Modelled from the spec: \<open>tick_is_broadcast_device\<close> is defined in tick-broadcast.c,
  which is not among the sources; the spec speaks of the designated broadcast device.
\<close>

definition tick_is_broadcast_device :: "('l::len) registry \<Rightarrow> dev_ptr \<Rightarrow> bool" where
  "tick_is_broadcast_device r d \<longleftrightarrow> tick_broadcast_device r = Some d"

text \<open>Lines 345-346: every entry of the released list is unlinked.\<close>

fun clockevents_drop_released :: "dev_ptr list \<Rightarrow> ('l::len) registry \<Rightarrow> 'l registry" where
  "clockevents_drop_released [] r = r"
| "clockevents_drop_released (d # ds) r =
     clockevents_drop_released ds
       (r\<lparr>clockevents_released := remove1 d (clockevents_released r)\<rparr>)"

text \<open>
  Lines 348-355: the walk over the active list. \<open>cpumask_test_cpu\<close> reads through
  the \<open>cpumask\<close> pointer, and \<open>&&\<close> evaluates its operands from the left.
\<close>

fun clockevents_cpu_dead ::
  "nat \<Rightarrow> dev_ptr list \<Rightarrow> ('l::len) registry \<Rightarrow> kernel_error + 'l registry" where
  "clockevents_cpu_dead cpu [] r = Inr r"
| "clockevents_cpu_dead cpu (d # ds) r =
     (case cpumask (devmem r d) of
        None \<Rightarrow> Inl BAD_POINTER
      | Some m \<Rightarrow>
          if cpu \<in> m \<and> card m = 1 \<and> \<not> tick_is_broadcast_device r d then
            (if mode (devmem r d) \<noteq> CLOCK_EVT_MODE_UNUSED then Inl BUG
             else clockevents_cpu_dead cpu ds
                    (r\<lparr>clockevent_devices := remove1 d (clockevent_devices r)\<rparr>))
          else clockevents_cpu_dead cpu ds r)"

definition clockevents_notify ::
  "clock_event_notify \<Rightarrow> notify_arg \<Rightarrow> ('l::len) registry \<Rightarrow> kernel_error + 'l registry" where
  "clockevents_notify reason arg r =
     (let r1 = clockevents_do_notify reason arg r
      in case reason of
           CLOCK_EVT_NOTIFY_CPU_DEAD \<Rightarrow>
             (case arg of
                Cpu_arg cpu \<Rightarrow>
                  (let r2 = clockevents_drop_released (clockevents_released r1) r1
                   in clockevents_cpu_dead cpu (clockevent_devices r2) r2)
              | _ \<Rightarrow> Inl BAD_POINTER)
         | _ \<Rightarrow> Inr r1)"

section \<open>Example instances\<close>

text \<open>
  A 1 MHz oneshot timer on a 32-bit target (\<open>mult = 2^32 / 1000\<close>, \<open>shift = 32\<close>), a
  driver whose \<open>set_next_event\<close> rejects fewer than two ticks, a driver that rejects
  every request, and a clock that reads the hardware state as the time.
\<close>

definition ex_dev :: "32 clock_event_device" where
  "ex_dev = \<lparr>next_event = 0, max_delta_ns = 4294967591000, min_delta_ns = 2001,
     mult = 4294967, shift = 32, mode = CLOCK_EVT_MODE_ONESHOT, features = 2,
     retries = 0, min_delta_ticks = 2, max_delta_ticks = 0xFFFFFFFF,
     name = Some ''timer'', cpumask = Some {0}\<rparr>"

definition ex_ops :: "(32, nat) clock_event_ops" where
  "ex_ops = \<lparr>set_mode = (\<lambda>m d h. h),
     set_next_event = (\<lambda>evt d h. (if unat evt < 2 then - 62 else 0, h)),
     set_next_ktime = (\<lambda>t d h. (0, h)),
     ktime_get = (\<lambda>h. (word_of_nat h, h))\<rparr>"

definition ex_ops_busy :: "(32, nat) clock_event_ops" where
  "ex_ops_busy = \<lparr>set_mode = (\<lambda>m d h. h),
     set_next_event = (\<lambda>evt d h. (- 62, h)),
     set_next_ktime = (\<lambda>t d h. (0, h)),
     ktime_get = (\<lambda>h. (word_of_nat h, h))\<rparr>"

definition ex_world :: "(32, nat) world" where
  "ex_world = \<lparr>dev = ex_dev, hw = 5000, calls = [], warnings = 0\<rparr>"

definition ex_cfg :: kconfig where
  "ex_cfg = \<lparr>HZ = 100, GENERIC_CLOCKEVENTS_MIN_ADJUST = True\<rparr>"

text \<open>
  A device on a 64-bit target with \<open>mult = 7\<close>, \<open>shift = 0\<close>, and two 32-bit devices
  with the largest 32-bit \<open>min_delta_ticks\<close>: one with \<open>mult = 1\<close>, \<open>shift = 33\<close>, one
  with \<open>mult = 2\<close>, \<open>shift = 0\<close>.
\<close>

definition ex_dev64 :: "64 clock_event_device" where
  "ex_dev64 = \<lparr>next_event = 0, max_delta_ns = 0xFFFFFFFF, min_delta_ns = 1000,
     mult = 7, shift = 0, mode = CLOCK_EVT_MODE_ONESHOT, features = 2,
     retries = 0, min_delta_ticks = 2, max_delta_ticks = 0xFFFFFFFF,
     name = Some ''timer64'', cpumask = Some {0}\<rparr>"

definition ex_world64 :: "(64, unit) world" where
  "ex_world64 = \<lparr>dev = ex_dev64, hw = (), calls = [], warnings = 0\<rparr>"

definition ex_world_shift33 :: "(32, nat) world" where
  "ex_world_shift33 =
     ex_world\<lparr>dev := ex_dev\<lparr>mult := 1, shift := 33, min_delta_ticks := 0xFFFFFFFF\<rparr>\<rparr>"

definition ex_world_fast :: "(32, nat) world" where
  "ex_world_fast =
     ex_world\<lparr>dev := ex_dev\<lparr>mult := 2, shift := 0, min_delta_ticks := 0xFFFFFFFF\<rparr>\<rparr>"

text \<open>
  A registry on a two-processor system: devices 0, 2 and 4 are affine to processor 0
  alone, device 1 to both processors, device 3 to processor 1; device 2 is the broadcast
  device; every device is in mode UNUSED.
\<close>

definition ex_reg :: "32 registry" where
  "ex_reg = \<lparr>devmem = (\<lambda>p. ex_dev\<lparr>mode := CLOCK_EVT_MODE_UNUSED,
                  cpumask := (if p = 1 then Some {0, 1} else if p = 3 then Some {1} else Some {0})\<rparr>),
     clockevent_devices = [0], clockevents_released = [2], clockevents_chain_calls = [],
     tick_broadcast_device = Some 2, warnings_reg = 0\<rparr>"

definition ex_env :: cpu_env where
  "ex_env = \<lparr>num_possible_cpus = 2, smp_processor_id = 0\<rparr>"

section \<open>Unfolding rules\<close>

lemmas ex_defs = ex_world_def ex_dev_def ex_ops_def ex_ops_busy_def ex_cfg_def

lemmas cev_defs = cev_delta2ns_def cev_add_rnd_def cev_clc_def cev_rnd_def ns2clc_def

section \<open>Mode state machine: properties\<close>

text \<open>
  C7. \<open>clockevents_set_mode\<close> returns the state it was given when the requested mode
  is the current one: no callback runs and no field changes. Otherwise the driver's
  \<open>set_mode\<close> callback runs on the device as it was, the invocation is recorded, the
  new mode is stored, and a zero \<open>mult\<close> on entry to ONESHOT becomes 1 with one more
  warning counted. The function always returns a state.
\<close>

theorem set_mode_noop_or_commit:
  "(mode (dev w) = md \<longrightarrow> clockevents_set_mode ops w md = w) \<and>
   (mode (dev w) \<noteq> md \<longrightarrow>
      clockevents_set_mode ops w md =
        w\<lparr>hw := set_mode ops md (dev w) (hw w),
          calls := calls w @ [Set_mode md],
          dev := (dev w)\<lparr>mode := md,
                   mult := (if md = CLOCK_EVT_MODE_ONESHOT \<and> mult (dev w) = 0
                            then 1 else mult (dev w))\<rparr>,
          warnings := (if md = CLOCK_EVT_MODE_ONESHOT \<and> mult (dev w) = 0
                       then warnings w + 1 else warnings w)\<rparr>)"
  by (simp add: clockevents_set_mode_def Let_def)

theorem set_mode_noop_or_commit_witness:
  "clockevents_set_mode ex_ops ex_world CLOCK_EVT_MODE_ONESHOT = ex_world \<and>
   mode (dev (clockevents_set_mode ex_ops ex_world CLOCK_EVT_MODE_PERIODIC)) = CLOCK_EVT_MODE_PERIODIC \<and>
   calls (clockevents_set_mode ex_ops ex_world CLOCK_EVT_MODE_PERIODIC) = [Set_mode CLOCK_EVT_MODE_PERIODIC] \<and>
   mult (dev (clockevents_set_mode ex_ops (ex_world\<lparr>dev := ex_dev\<lparr>mult := 0, mode := CLOCK_EVT_MODE_SHUTDOWN\<rparr>\<rparr>)
                CLOCK_EVT_MODE_ONESHOT)) = 1 \<and>
   warnings (clockevents_set_mode ex_ops (ex_world\<lparr>dev := ex_dev\<lparr>mult := 0, mode := CLOCK_EVT_MODE_SHUTDOWN\<rparr>\<rparr>)
                CLOCK_EVT_MODE_ONESHOT) = 1"
  using set_mode_noop_or_commit [of ex_world CLOCK_EVT_MODE_ONESHOT ex_ops]
    set_mode_noop_or_commit [of ex_world CLOCK_EVT_MODE_PERIODIC ex_ops]
    set_mode_noop_or_commit [of "ex_world\<lparr>dev := ex_dev\<lparr>mult := 0, mode := CLOCK_EVT_MODE_SHUTDOWN\<rparr>\<rparr>"
      CLOCK_EVT_MODE_ONESHOT ex_ops]
  by (simp add: ex_defs)

section \<open>Event programmer: properties\<close>

text \<open>
  C6. \<open>clockevents_shutdown\<close> leaves the device in mode SHUTDOWN with \<open>next_event\<close>
  equal to \<open>KTIME_MAX\<close>. On the state it returns, \<open>clockevents_program_event\<close> without
  \<open>force\<close> returns 0 for every non-negative time, records no callback invocation,
  leaves the hardware state alone and keeps the mode, so the same holds for each later
  call.
\<close>

theorem shutdown_then_program_succeeds:
  "mode (dev (clockevents_shutdown ops w)) = CLOCK_EVT_MODE_SHUTDOWN \<and>
   next_event (dev (clockevents_shutdown ops w)) = KTIME_MAX \<and>
   (\<forall>t. 0 \<le> sint t \<longrightarrow>
      fst (clockevents_program_event cfg ops (clockevents_shutdown ops w) t False) = 0 \<and>
      calls (snd (clockevents_program_event cfg ops (clockevents_shutdown ops w) t False)) =
        calls (clockevents_shutdown ops w) \<and>
      hw (snd (clockevents_program_event cfg ops (clockevents_shutdown ops w) t False)) =
        hw (clockevents_shutdown ops w) \<and>
      mode (dev (snd (clockevents_program_event cfg ops (clockevents_shutdown ops w) t False))) =
        CLOCK_EVT_MODE_SHUTDOWN)"
proof -
  have m: "mode (dev (clockevents_shutdown ops w)) = CLOCK_EVT_MODE_SHUTDOWN"
    by (simp add: clockevents_shutdown_def clockevents_set_mode_def Let_def)
  have n: "next_event (dev (clockevents_shutdown ops w)) = KTIME_MAX"
    by (simp add: clockevents_shutdown_def Let_def)
  have p: "clockevents_program_event cfg ops (clockevents_shutdown ops w) t False =
      (0, (clockevents_shutdown ops w)\<lparr>dev := (dev (clockevents_shutdown ops w))\<lparr>next_event := t\<rparr>\<rparr>)"
    if "0 \<le> sint t" for t
    using m that by (simp add: clockevents_program_event_def Let_def)
  show ?thesis
    using m n by (simp add: p)
qed

theorem shutdown_then_program_succeeds_witness:
  "0 \<le> sint (7000 :: ktime) \<and>
   fst (clockevents_program_event ex_cfg ex_ops (clockevents_shutdown ex_ops ex_world) 7000 False) = 0 \<and>
   calls (snd (clockevents_program_event ex_cfg ex_ops (clockevents_shutdown ex_ops ex_world) 7000 False)) =
     [Set_mode CLOCK_EVT_MODE_SHUTDOWN]"
  using shutdown_then_program_succeeds [of ex_ops ex_world ex_cfg]
  by (simp add: clockevents_shutdown_def clockevents_set_mode_def Let_def ex_defs)

text \<open>
  C10. On a device in mode SHUTDOWN, \<open>clockevents_program_event\<close> with a non-negative
  time \<open>t\<close> returns 0, with or without \<open>force\<close>, and the state it returns differs from
  the one it was given in \<open>next_event\<close> only, which is now \<open>t\<close>.
\<close>

theorem program_event_shutdown_overwrites_next_event:
  assumes "mode (dev w) = CLOCK_EVT_MODE_SHUTDOWN" and "0 \<le> sint t"
  shows "clockevents_program_event cfg ops w t force = (0, w\<lparr>dev := (dev w)\<lparr>next_event := t\<rparr>\<rparr>)"
  using assms by (simp add: clockevents_program_event_def Let_def)

theorem program_event_shutdown_overwrites_next_event_witness:
  "mode (dev (clockevents_shutdown ex_ops ex_world)) = CLOCK_EVT_MODE_SHUTDOWN \<and>
   0 \<le> sint (7000 :: ktime) \<and>
   next_event (dev (clockevents_shutdown ex_ops ex_world)) = KTIME_MAX \<and>
   next_event (dev (snd (clockevents_program_event ex_cfg ex_ops
                           (clockevents_shutdown ex_ops ex_world) 7000 True))) = 7000"
  using program_event_shutdown_overwrites_next_event
    [of "clockevents_shutdown ex_ops ex_world" 7000 ex_cfg ex_ops True]
  by (simp add: clockevents_shutdown_def clockevents_set_mode_def Let_def ex_defs)

text \<open>
  C5, as amended. Without \<open>force\<close>, programming a non-negative time that is not after
  the clock reading fails with \<open>-ETIME\<close> on every device that is not in mode SHUTDOWN
  and does not declare \<open>CLOCK_EVT_FEAT_KTIME\<close>. (A device in mode SHUTDOWN returns 0
  before the time is looked at, and a \<open>CLOCK_EVT_FEAT_KTIME\<close> device returns what its
  \<open>set_next_ktime\<close> callback returns.)
\<close>

theorem program_event_past_noforce:
  assumes "0 \<le> sint expires"
    and "mode (dev w) \<noteq> CLOCK_EVT_MODE_SHUTDOWN"
    and "features (dev w) AND CLOCK_EVT_FEAT_KTIME = 0"
    and "sint (expires - fst (ktime_get ops (hw w))) \<le> 0"
  shows "fst (clockevents_program_event cfg ops w expires False) = - ETIME"
  using assms by (simp add: clockevents_program_event_def Let_def)

theorem program_event_past_noforce_witness:
  "0 \<le> sint (4999 :: ktime) \<and>
   mode (dev ex_world) \<noteq> CLOCK_EVT_MODE_SHUTDOWN \<and>
   features (dev ex_world) AND CLOCK_EVT_FEAT_KTIME = 0 \<and>
   sint (4999 - fst (ktime_get ex_ops (hw ex_world))) \<le> 0 \<and>
   fst (clockevents_program_event ex_cfg ex_ops ex_world 4999 False) = - ETIME"
  using program_event_past_noforce [of 4999 ex_world ex_ops ex_cfg]
  by (simp add: ex_defs CLOCK_EVT_FEAT_KTIME_def)

text \<open>
  C5 as stated fails on a device that has been shut down: the time 4999 is
  non-negative and one nanosecond before the clock reading 5000, and the call returns 0.
\<close>

theorem program_event_past_noforce_counterexample:
  "0 \<le> sint (4999 :: ktime) \<and>
   sint (4999 - fst (ktime_get ex_ops (hw (clockevents_shutdown ex_ops ex_world)))) \<le> 0 \<and>
   fst (clockevents_program_event ex_cfg ex_ops (clockevents_shutdown ex_ops ex_world) 4999 False) = 0 \<and>
   0 \<noteq> - ETIME"
  by (simp add: clockevents_program_event_def clockevents_shutdown_def clockevents_set_mode_def
      Let_def ex_defs ETIME_def)

section \<open>The adaptive minimum-delta loop: properties\<close>

lemma arm_failed_fields:
  "min_delta_ns (dev (arm_failed ops w)) = min_delta_ns (dev w)"
  "mode (dev (arm_failed ops w)) = mode (dev w)"
  "mult (dev (arm_failed ops w)) = mult (dev w)"
  "shift (dev (arm_failed ops w)) = shift (dev w)"
  "retries (dev (arm_failed ops w)) = retries (dev w) + 1"
  "warnings (arm_failed ops w) = warnings w"
  "calls (arm_failed ops w) =
     calls w @ [Set_next_event (unat (ucast (ns2clc (min_delta_ns (dev w)) (dev w)) :: 'l word))]"
  for w :: "('l::len, 'h) world"
  by (simp_all add: arm_failed_def Let_def ns2clc_def)

lemma loop_arm_failed:
  assumes "\<forall>evt d h. fst (set_next_event ops evt d h) \<noteq> 0"
    and "mode (dev w) \<noteq> CLOCK_EVT_MODE_SHUTDOWN"
  shows "clockevents_program_min_delta_loop cfg ops i w =
     (if i + 1 > 2 then
        (let r' = clockevents_increase_min_delta cfg (arm_failed ops w)
         in if fst r' \<noteq> 0 then (- ETIME, snd r')
            else clockevents_program_min_delta_loop cfg ops 0 (snd r'))
      else clockevents_program_min_delta_loop cfg ops (i + 1) (arm_failed ops w))"
  using assms
  by (subst clockevents_program_min_delta_loop.simps) (simp add: Let_def arm_failed_def)

lemma loop_three_failures:
  assumes "\<forall>evt d h. fst (set_next_event ops evt d h) \<noteq> 0"
    and "mode (dev w) \<noteq> CLOCK_EVT_MODE_SHUTDOWN"
  shows "clockevents_program_min_delta_loop cfg ops 0 w =
     (let r' = clockevents_increase_min_delta cfg (arm_failed ops (arm_failed ops (arm_failed ops w)))
      in if fst r' \<noteq> 0 then (- ETIME, snd r')
         else clockevents_program_min_delta_loop cfg ops 0 (snd r'))"
proof -
  have m1: "mode (dev (arm_failed ops w)) \<noteq> CLOCK_EVT_MODE_SHUTDOWN"
    using assms(2) by (simp add: arm_failed_fields)
  have m2: "mode (dev (arm_failed ops (arm_failed ops w))) \<noteq> CLOCK_EVT_MODE_SHUTDOWN"
    using m1 by (simp add: arm_failed_fields)
  have "clockevents_program_min_delta_loop cfg ops 0 w =
        clockevents_program_min_delta_loop cfg ops (Suc 0) (arm_failed ops w)"
    by (subst loop_arm_failed [OF assms]) simp
  also have "\<dots> = clockevents_program_min_delta_loop cfg ops (Suc (Suc 0)) (arm_failed ops (arm_failed ops w))"
    by (subst loop_arm_failed [OF assms(1) m1]) simp
  also have "\<dots> = (let r' = clockevents_increase_min_delta cfg (arm_failed ops (arm_failed ops (arm_failed ops w)))
      in if fst r' \<noteq> 0 then (- ETIME, snd r')
         else clockevents_program_min_delta_loop cfg ops 0 (snd r'))"
    by (subst loop_arm_failed [OF assms(1) m2]) simp
  finally show ?thesis .
qed


lemma MIN_DELTA_LIMIT_le: "unat (MIN_DELTA_LIMIT cfg) \<le> 1000000000"
proof -
  have "unat (MIN_DELTA_LIMIT cfg) \<le> NSEC_PER_SEC div HZ cfg"
    unfolding MIN_DELTA_LIMIT_def by (simp add: unat_of_nat)
  also have "\<dots> \<le> 1000000000"
    unfolding NSEC_PER_SEC_def by (rule div_le_dividend)
  finally show ?thesis .
qed

lemma increase_min_delta_at_limit:
  assumes "unat (MIN_DELTA_LIMIT cfg) \<le> unat (min_delta_ns (dev w))"
  shows "clockevents_increase_min_delta cfg w =
           (- ETIME, w\<lparr>dev := (dev w)\<lparr>next_event := KTIME_MAX\<rparr>\<rparr>)"
  using assms by (simp add: clockevents_increase_min_delta_def word_le_nat_alt)

lemma increase_min_delta_below_limit:
  assumes "unat (min_delta_ns (dev w)) < unat (MIN_DELTA_LIMIT cfg)"
  shows "\<exists>m'. clockevents_increase_min_delta cfg w = (0, w\<lparr>dev := (dev w)\<lparr>min_delta_ns := m'\<rparr>\<rparr>) \<and>
           unat m' = growth_step (unat (MIN_DELTA_LIMIT cfg)) (unat (min_delta_ns (dev w)))"
proof -
  define m where "m = min_delta_ns (dev w)"
  define lim where "lim = MIN_DELTA_LIMIT cfg"
  have lim: "unat lim \<le> 1000000000"
    unfolding lim_def by (rule MIN_DELTA_LIMIT_le)
  have ltn: "unat m < unat lim"
    using assms by (simp add: m_def lim_def)
  then have lt: "\<not> lim \<le> m"
    by (simp add: word_le_nat_alt)
  have half: "unat (drop_bit 1 m) = unat m div 2"
    by (simp add: drop_bit_eq_div unat_div)
  have grow: "unat (m + drop_bit 1 m) = unat m + unat m div 2"
  proof -
    have "unat m + unat (drop_bit 1 m) < 2 ^ LENGTH(64)"
      using ltn lim half by simp
    then have "unat (m + drop_bit 1 m) = unat m + unat (drop_bit 1 m)"
      by (simp only: unat_add_lem)
    then show ?thesis
      using half by simp
  qed
  define m1 where "m1 = (if m < 5000 then 5000 else m + drop_bit 1 m)"
  define m' where "m' = (if lim < m1 then lim else m1)"
  have u1: "unat m1 = (if unat m < 5000 then 5000 else unat m + unat m div 2)"
    using grow by (simp add: m1_def word_less_nat_alt)
  have u': "unat m' = growth_step (unat lim) (unat m)"
    using u1 by (simp add: m'_def growth_step_def word_less_nat_alt min_def)
  have "clockevents_increase_min_delta cfg w = (0, w\<lparr>dev := (dev w)\<lparr>min_delta_ns := m'\<rparr>\<rparr>)"
    using lt unfolding clockevents_increase_min_delta_def m'_def m1_def m_def lim_def
    by (simp add: Let_def)
  then show ?thesis
    using u' unfolding m_def lim_def by blast
qed


lemma unat_MIN_DELTA_LIMIT: "unat (MIN_DELTA_LIMIT cfg) = NSEC_PER_SEC div HZ cfg"
proof -
  have "NSEC_PER_SEC div HZ cfg \<le> 1000000000"
    unfolding NSEC_PER_SEC_def by (rule div_le_dividend)
  then have "NSEC_PER_SEC div HZ cfg < 2 ^ LENGTH(64)"
    by simp
  then show ?thesis
    unfolding MIN_DELTA_LIMIT_def by (rule of_nat_inverse [OF refl])
qed

lemma ns2clc_arm_failed: "ns2clc x (dev (arm_failed ops w)) = ns2clc x (dev w)"
  by (simp add: ns2clc_def arm_failed_fields)

lemma min_delta_schedule_last: "last (min_delta_schedule lim m) = max lim m"
proof (induction lim m rule: min_delta_schedule.induct)
  case (1 lim m)
  show ?case
  proof (cases "lim \<le> m")
    case True
    then show ?thesis
      by (subst min_delta_schedule.simps) simp
  next
    case False
    have ne: "min_delta_schedule lim (growth_step lim m) \<noteq> []"
      by (subst min_delta_schedule.simps) simp
    have "last (min_delta_schedule lim m) = last (min_delta_schedule lim (growth_step lim m))"
      using False ne by (subst min_delta_schedule.simps) simp
    also have "\<dots> = max lim (growth_step lim m)"
      using False by (rule "1.IH")
    also have "\<dots> = max lim m"
      using False by (simp add: growth_step_def)
    finally show ?thesis .
  qed
qed

lemma loop_always_failing:
  fixes w :: "('l::len, 'h) world"
  assumes fails: "\<forall>evt d h. fst (set_next_event ops evt d h) \<noteq> 0"
  shows "mode (dev w) \<noteq> CLOCK_EVT_MODE_SHUTDOWN \<Longrightarrow>
     unat (min_delta_ns (dev w)) = m \<Longrightarrow> unat (MIN_DELTA_LIMIT cfg) = lim \<Longrightarrow>
     fst (clockevents_program_min_delta_loop cfg ops 0 w) = - ETIME \<and>
     next_event (dev (snd (clockevents_program_min_delta_loop cfg ops 0 w))) = KTIME_MAX \<and>
     unat (min_delta_ns (dev (snd (clockevents_program_min_delta_loop cfg ops 0 w)))) =
       last (min_delta_schedule lim m) \<and>
     calls (snd (clockevents_program_min_delta_loop cfg ops 0 w)) =
       calls w @ concat (map (\<lambda>v. replicate 3
           (Set_next_event (unat (ucast (ns2clc (word_of_nat v) (dev w)) :: 'l word))))
         (min_delta_schedule lim m))"
proof (induction lim m arbitrary: w rule: min_delta_schedule.induct)
  case (1 lim m)
  define a3 where "a3 = arm_failed ops (arm_failed ops (arm_failed ops w))"
  have step: "clockevents_program_min_delta_loop cfg ops 0 w =
     (let r' = clockevents_increase_min_delta cfg a3
      in if fst r' \<noteq> 0 then (- ETIME, snd r')
         else clockevents_program_min_delta_loop cfg ops 0 (snd r'))"
    unfolding a3_def by (rule loop_three_failures [OF fails "1.prems"(1)])
  have mw: "word_of_nat m = min_delta_ns (dev w)"
    using "1.prems"(2) [symmetric] by simp
  have a3_min: "min_delta_ns (dev a3) = min_delta_ns (dev w)"
    and a3_mode: "mode (dev a3) = mode (dev w)"
    by (simp_all add: a3_def arm_failed_fields)
  have a3_ns: "ns2clc x (dev a3) = ns2clc x (dev w)" for x
    by (simp add: a3_def ns2clc_arm_failed)
  have a3_calls: "calls a3 = calls w @ replicate 3
      (Set_next_event (unat (ucast (ns2clc (word_of_nat m) (dev w)) :: 'l word)))"
    by (simp add: a3_def arm_failed_fields ns2clc_arm_failed mw numeral_3_eq_3)
  show ?case
  proof (cases "lim \<le> m")
    case True
    have sched: "min_delta_schedule lim m = [m]"
      using True by (subst min_delta_schedule.simps) simp
    have "unat (MIN_DELTA_LIMIT cfg) \<le> unat (min_delta_ns (dev a3))"
      using True "1.prems" a3_min by simp
    then have inc: "clockevents_increase_min_delta cfg a3 =
        (- ETIME, a3\<lparr>dev := (dev a3)\<lparr>next_event := KTIME_MAX\<rparr>\<rparr>)"
      by (rule increase_min_delta_at_limit)
    have res: "clockevents_program_min_delta_loop cfg ops 0 w =
        (- ETIME, a3\<lparr>dev := (dev a3)\<lparr>next_event := KTIME_MAX\<rparr>\<rparr>)"
      unfolding step inc by (simp add: ETIME_def)
    show ?thesis
      unfolding res sched using a3_min a3_calls "1.prems"(2) by simp
  next
    case False
    have "unat (min_delta_ns (dev a3)) < unat (MIN_DELTA_LIMIT cfg)"
      using False "1.prems" a3_min by simp
    from increase_min_delta_below_limit [OF this]
    obtain m' where inc: "clockevents_increase_min_delta cfg a3 =
          (0, a3\<lparr>dev := (dev a3)\<lparr>min_delta_ns := m'\<rparr>\<rparr>)"
      and m': "unat m' = growth_step lim m"
      using "1.prems" a3_min by auto
    define w' where "w' = a3\<lparr>dev := (dev a3)\<lparr>min_delta_ns := m'\<rparr>\<rparr>"
    have res: "clockevents_program_min_delta_loop cfg ops 0 w =
        clockevents_program_min_delta_loop cfg ops 0 w'"
      unfolding step inc w'_def by simp
    have w'_mode: "mode (dev w') \<noteq> CLOCK_EVT_MODE_SHUTDOWN"
      using "1.prems"(1) a3_mode by (simp add: w'_def)
    have w'_min: "unat (min_delta_ns (dev w')) = growth_step lim m"
      using m' by (simp add: w'_def)
    have w'_ns: "ns2clc x (dev w') = ns2clc x (dev w)" for x
      using a3_ns [of x] by (simp add: w'_def ns2clc_def)
    have w'_calls: "calls w' = calls w @ replicate 3
        (Set_next_event (unat (ucast (ns2clc (word_of_nat m) (dev w)) :: 'l word)))"
      using a3_calls by (simp add: w'_def)
    have sched: "min_delta_schedule lim m = m # min_delta_schedule lim (growth_step lim m)"
      using False by (subst min_delta_schedule.simps) simp
    have ne: "min_delta_schedule lim (growth_step lim m) \<noteq> []"
      by (subst min_delta_schedule.simps) simp
    note IH = "1.IH" [OF False w'_mode w'_min "1.prems"(3)]
    show ?thesis
      unfolding res sched using IH ne by (simp add: w'_ns w'_calls)
  qed
qed

text \<open>
  C1. Under the adaptive policy, on a device that is not in mode SHUTDOWN and whose
  \<open>set_next_event\<close> callback fails on every invocation, \<open>clockevents_program_min_delta\<close>
  returns (the loop is a total function), and it returns \<open>-ETIME\<close> with \<open>next_event\<close>
  equal to \<open>KTIME_MAX\<close>. The callback has been invoked three times at each value of
  the schedule that starts at the device's \<open>min_delta_ns\<close> and grows by the rule
  "floor 5000, then times 1.5, ceiling \<open>NSEC_PER_SEC / HZ\<close>", and at no other value;
  \<open>min_delta_ns\<close> ends at the ceiling (or where it started, if that was above).
\<close>

theorem program_min_delta_always_failing:
  fixes w :: "('l::len, 'h) world"
  assumes "GENERIC_CLOCKEVENTS_MIN_ADJUST cfg"
    and "\<forall>evt d h. fst (set_next_event ops evt d h) \<noteq> 0"
    and "mode (dev w) \<noteq> CLOCK_EVT_MODE_SHUTDOWN"
  shows "fst (clockevents_program_min_delta cfg ops w) = - ETIME \<and>
     next_event (dev (snd (clockevents_program_min_delta cfg ops w))) = KTIME_MAX \<and>
     unat (min_delta_ns (dev (snd (clockevents_program_min_delta cfg ops w)))) =
       max (NSEC_PER_SEC div HZ cfg) (unat (min_delta_ns (dev w))) \<and>
     calls (snd (clockevents_program_min_delta cfg ops w)) =
       calls w @ concat (map (\<lambda>v. replicate 3
           (Set_next_event (unat (ucast (ns2clc (word_of_nat v) (dev w)) :: 'l word))))
         (min_delta_schedule (NSEC_PER_SEC div HZ cfg) (unat (min_delta_ns (dev w)))))"
  using loop_always_failing [OF assms(2) assms(3) refl unat_MIN_DELTA_LIMIT, of cfg] assms(1)
  by (simp add: clockevents_program_min_delta_def clockevents_program_min_delta_adjust_def
      min_delta_schedule_last)

theorem program_min_delta_always_failing_witness:
  "GENERIC_CLOCKEVENTS_MIN_ADJUST ex_cfg \<and>
   (\<forall>evt d h. fst (set_next_event ex_ops_busy evt d h) \<noteq> 0) \<and>
   mode (dev ex_world) \<noteq> CLOCK_EVT_MODE_SHUTDOWN \<and>
   fst (clockevents_program_min_delta ex_cfg ex_ops_busy ex_world) = - ETIME \<and>
   next_event (dev (snd (clockevents_program_min_delta ex_cfg ex_ops_busy ex_world))) = KTIME_MAX \<and>
   unat (min_delta_ns (dev (snd (clockevents_program_min_delta ex_cfg ex_ops_busy ex_world)))) = 10000000"
  using program_min_delta_always_failing [of ex_cfg ex_ops_busy ex_world]
  by (simp add: ex_defs NSEC_PER_SEC_def)

section \<open>Scaled math: properties\<close>

lemma unat_push_bit_u64:
  fixes x :: u64
  shows "unat (push_bit s x) = (unat x * 2 ^ s) mod 2 ^ 64"
  by (subst unsigned_push_bit_eq) (simp add: push_bit_eq_mult take_bit_eq_mod)

lemma unat_drop_bit_u64:
  fixes x :: u64
  shows "unat (drop_bit s x) = unat x div 2 ^ s"
  by (subst unat_drop_bit_eq) (simp add: drop_bit_eq_div)

lemma unat_max_u64: "unat (- 1 :: u64) = 2 ^ 64 - 1"
  by (simp add: unsigned_minus_1_eq_mask mask_eq_exp_minus_1)

lemma shift_roundtrip_iff:
  fixes x :: u64
  shows "drop_bit s (push_bit s x) = x \<longleftrightarrow> unat x * 2 ^ s < 2 ^ 64"
proof
  assume lt: "unat x * 2 ^ s < 2 ^ 64"
  have "unat (push_bit s x) = unat x * 2 ^ s"
    using lt by (simp add: unat_push_bit_u64)
  then have "unat (drop_bit s (push_bit s x)) = unat x"
    by (simp add: unat_drop_bit_u64)
  then show "drop_bit s (push_bit s x) = x"
    by (simp add: word_unat_eq_iff)
next
  assume eq: "drop_bit s (push_bit s x) = x"
  show "unat x * 2 ^ s < 2 ^ 64"
  proof (rule ccontr)
    assume "\<not> unat x * 2 ^ s < 2 ^ 64"
    define y where "y = unat (push_bit s x)"
    have y: "y < 2 ^ 64"
      unfolding y_def using unsigned_less [of "push_bit s x"] by simp
    have "unat (drop_bit s (push_bit s x)) = y div 2 ^ s"
      by (simp add: y_def unat_drop_bit_u64)
    then have "y div 2 ^ s = unat x"
      using eq by simp
    then have "unat x * 2 ^ s \<le> y"
      using div_times_less_eq_dividend [of y "2 ^ s"] by simp
    with y \<open>\<not> unat x * 2 ^ s < 2 ^ 64\<close> show False
      by simp
  qed
qed

lemma cev_clc_unat:
  "unat (cev_clc latch d) =
     (if unat (ucast latch :: u64) * 2 ^ unat (shift d) < 2 ^ 64
      then unat (ucast latch :: u64) * 2 ^ unat (shift d) else 2 ^ 64 - 1)"
proof (cases "unat (ucast latch :: u64) * 2 ^ unat (shift d) < 2 ^ 64")
  case True
  then have "unat (push_bit (unat (shift d)) (ucast latch :: u64)) =
      unat (ucast latch :: u64) * 2 ^ unat (shift d)"
    by (simp add: unat_push_bit_u64)
  then show ?thesis
    using True shift_roundtrip_iff [of "unat (shift d)" "ucast latch"]
    by (simp add: cev_clc_def Let_def)
next
  case False
  then show ?thesis
    using shift_roundtrip_iff [of "unat (shift d)" "ucast latch"]
    by (simp add: cev_clc_def Let_def unat_max_u64)
qed


lemma cev_add_rnd_unat:
  "cev_add_rnd latch d ismax \<longleftrightarrow>
     unat (cev_clc latch d) + unat (cev_rnd d) < 2 ^ 64 - 1 \<and>
     (\<not> ismax \<or> mult d \<le> push_bit (unat (shift d)) 1)"
proof -
  have "unat (- 1 - cev_clc latch d) = 2 ^ 64 - 1 - unat (cev_clc latch d)"
    by (simp add: unat_sub unat_max_u64)
  then have "cev_rnd d < - 1 - cev_clc latch d \<longleftrightarrow>
      unat (cev_clc latch d) + unat (cev_rnd d) < 2 ^ 64 - 1"
    by (auto simp add: word_less_nat_alt)
  then show ?thesis
    by (simp add: cev_add_rnd_def)
qed

lemma unat_u32_bound: "unat (x :: u32) < 4294967296"
  using unsigned_less [of x, where 'a = nat] by simp

lemma cev_rnd_unat: "mult d \<noteq> 0 \<Longrightarrow> unat (cev_rnd d) = unat (mult d) - 1"
proof -
  assume "mult d \<noteq> 0"
  have u: "unat (ucast (mult d) :: u64) = unat (mult d)"
    using unat_u32_bound [of "mult d"] by (simp add: unsigned_ucast_eq take_bit_eq_mod)
  then have "(ucast (mult d) :: u64) \<noteq> 0"
    using \<open>mult d \<noteq> 0\<close> by (metis unat_gt_0 unat_eq_zero neq0_conv)
  then show ?thesis
    using u by (simp add: cev_rnd_def unat_minus_one)
qed


lemma unat_ucast_mult: "unat (ucast (mult d) :: u64) = unat (mult d)"
  using unat_u32_bound [of "mult d"] by (simp add: unsigned_ucast_eq take_bit_eq_mod)

lemma cev_delta2ns_unat:
  assumes "mult (dev w) \<noteq> 0"
  shows "unat (fst (cev_delta2ns latch w ismax)) =
     max 1000 ((if cev_add_rnd latch (dev w) ismax
                then unat (cev_clc latch (dev w)) + (unat (mult (dev w)) - 1)
                else unat (cev_clc latch (dev w))) div unat (mult (dev w)))"
proof -
  define clc where "clc = cev_clc latch (dev w)"
  define clc' where "clc' = (if cev_add_rnd latch (dev w) ismax then clc + cev_rnd (dev w) else clc)"
  define q where "q = clc' div ucast (mult (dev w))"
  have rnd: "unat (cev_rnd (dev w)) = unat (mult (dev w)) - 1"
    using assms by (rule cev_rnd_unat)
  have add: "unat (clc + cev_rnd (dev w)) = unat clc + (unat (mult (dev w)) - 1)"
    if "cev_add_rnd latch (dev w) ismax"
  proof -
    have "unat clc + unat (cev_rnd (dev w)) < 2 ^ 64 - 1"
      using that cev_add_rnd_unat [of latch "dev w" ismax] by (simp add: clc_def)
    then have "unat clc + unat (cev_rnd (dev w)) < 2 ^ LENGTH(64)"
      by simp
    then have "unat (clc + cev_rnd (dev w)) = unat clc + unat (cev_rnd (dev w))"
      by (simp only: unat_add_lem)
    then show ?thesis
      using rnd by simp
  qed
  have c': "unat clc' = (if cev_add_rnd latch (dev w) ismax
                then unat clc + (unat (mult (dev w)) - 1) else unat clc)"
    using add by (simp add: clc'_def)
  have q: "unat q = unat clc' div unat (mult (dev w))"
    by (simp add: q_def unat_div unat_ucast_mult)
  have "fst (cev_delta2ns latch w ismax) = (if q > 1000 then q else 1000)"
    using assms by (simp add: cev_delta2ns_def Let_def q_def clc'_def clc_def)
  then have "unat (fst (cev_delta2ns latch w ismax)) = max 1000 (unat q)"
    by (simp add: word_less_nat_alt max_def)
  then show ?thesis
    using q c' by (simp add: clc_def)
qed

lemma rounded_mono:
  fixes l1 l2 s m :: nat and g :: bool
  assumes le: "l1 \<le> l2" and l2: "l2 < 2 ^ 32" and m: "m < 2 ^ 32"
  defines "C \<equiv> \<lambda>l. if l * 2 ^ s < 2 ^ 64 then l * 2 ^ s else 2 ^ 64 - 1"
  defines "G \<equiv> \<lambda>l. if g \<and> C l + (m - 1) < 2 ^ 64 - 1 then C l + (m - 1) else C l"
  shows "G l1 \<le> G l2"
proof -
  have Cmono: "C l1 \<le> C l2"
  proof -
    define a b where "a = l1 * 2 ^ s" and "b = l2 * 2 ^ s"
    have "a \<le> b"
      using le by (simp add: a_def b_def)
    then have "(if a < 2 ^ 64 then a else 2 ^ 64 - 1) \<le> (if b < 2 ^ 64 then b else 2 ^ 64 - 1)"
      by simp
    then show ?thesis
      by (simp only: C_def a_def b_def)
  qed
  show ?thesis
  proof (cases "g \<and> C l1 + (m - 1) < 2 ^ 64 - 1")
    case False
    then have "G l1 = C l1"
      by (auto simp: G_def)
    moreover have "C l2 \<le> G l2"
      by (auto simp: G_def)
    ultimately show ?thesis
      using Cmono by simp
  next
    case add1: True
    then have G1: "G l1 = C l1 + (m - 1)"
      by (auto simp: G_def)
    show ?thesis
    proof (cases "C l2 + (m - 1) < 2 ^ 64 - 1")
      case True
      then have "G l2 = C l2 + (m - 1)"
        using add1 by (auto simp: G_def)
      then show ?thesis
        using G1 Cmono by simp
    next
      case False
      then have G2: "G l2 = C l2"
        by (auto simp: G_def)
      show ?thesis
      proof (cases "l2 * 2 ^ s < 2 ^ 64")
        case False
        then have "C l2 = 2 ^ 64 - 1"
          by (simp add: C_def)
        then show ?thesis
          using G1 G2 add1 by simp
      next
        case True
        then have C2: "C l2 = l2 * 2 ^ s"
          by (simp add: C_def)
        have "l1 * 2 ^ s \<le> l2 * 2 ^ s"
          using le by simp
        then have "l1 * 2 ^ s < 2 ^ 64"
          using True by (rule le_less_trans)
        then have C1: "C l1 = l1 * 2 ^ s"
          by (simp add: C_def)
        have ne: "l1 \<noteq> l2"
          using add1 \<open>\<not> C l2 + (m - 1) < 2 ^ 64 - 1\<close> by auto
        have big: "2 ^ 64 - 2 ^ 32 < l2 * (2::nat) ^ s"
          using \<open>\<not> C l2 + (m - 1) < 2 ^ 64 - 1\<close> m C2 by simp
        have "l2 * (2::nat) ^ s \<le> (2 ^ 32 - 1) * 2 ^ s"
          using l2 by (intro mult_le_mono1) simp
        with big have "2 ^ 64 - 2 ^ 32 < (2 ^ 32 - 1) * (2::nat) ^ s"
          by (rule less_le_trans)
        moreover have "(2 ^ 32 - 1) * (2::nat) ^ 32 = 2 ^ 64 - 2 ^ 32"
          by simp
        ultimately have "(2 ^ 32 - 1) * (2::nat) ^ 32 < (2 ^ 32 - 1) * 2 ^ s"
          by (simp only:)
        then have "(2::nat) ^ 32 < 2 ^ s"
          by (simp only: mult_less_cancel1)
        then have ms: "m \<le> 2 ^ s"
          using m by simp
        have "Suc l1 \<le> l2"
          using le ne by simp
        then have "Suc l1 * 2 ^ s \<le> l2 * 2 ^ s"
          by (rule mult_le_mono1)
        then have "l1 * 2 ^ s + 2 ^ s \<le> l2 * 2 ^ s"
          by (simp only: mult_Suc add.commute)
        then have "l1 * 2 ^ s + (m - 1) \<le> l2 * 2 ^ s"
          using ms by (meson add_le_mono diff_le_self le_refl le_trans)
        then show ?thesis
          by (simp only: G1 G2 C1 C2)
      qed
    qed
  qed
qed


lemma rounded_mono_fit:
  fixes l1 l2 s m :: nat and g :: bool
  assumes le: "l1 \<le> l2" and fit: "l2 * 2 ^ s + m < 2 ^ 64" and m: "0 < m"
  defines "C \<equiv> \<lambda>l. if l * 2 ^ s < 2 ^ 64 then l * 2 ^ s else 2 ^ 64 - 1"
  defines "G \<equiv> \<lambda>l. if g \<and> C l + (m - 1) < 2 ^ 64 - 1 then C l + (m - 1) else C l"
  shows "G l1 \<le> G l2"
proof -
  define a b where "a = l1 * 2 ^ s" and "b = l2 * 2 ^ s"
  have ab: "a \<le> b"
    using le by (simp add: a_def b_def)
  have b: "b + m < 2 ^ 64"
    using fit by (simp add: b_def)
  have C1: "C l1 = a" and C2: "C l2 = b"
    using ab b by (simp_all add: C_def a_def [symmetric] b_def [symmetric])
  have "G l2 = (if g then b + (m - 1) else b)"
    using b m by (auto simp: G_def C2)
  moreover have "G l1 \<le> (if g then a + (m - 1) else a)"
    by (auto simp: G_def C1)
  ultimately show ?thesis
    using ab by (simp split: if_splits)
qed

lemma cev_rounded_unat:
  fixes latch :: "('l::len) word"
  assumes "mult d \<noteq> 0" and "unat latch < 2 ^ 64"
  shows "(if cev_add_rnd latch d ismax
          then unat (cev_clc latch d) + (unat (mult d) - 1) else unat (cev_clc latch d)) =
     (if (\<not> ismax \<or> mult d \<le> push_bit (unat (shift d)) 1) \<and>
         (if unat latch * 2 ^ unat (shift d) < 2 ^ 64
          then unat latch * 2 ^ unat (shift d) else 2 ^ 64 - 1) + (unat (mult d) - 1) < 2 ^ 64 - 1
      then (if unat latch * 2 ^ unat (shift d) < 2 ^ 64
            then unat latch * 2 ^ unat (shift d) else 2 ^ 64 - 1) + (unat (mult d) - 1)
      else (if unat latch * 2 ^ unat (shift d) < 2 ^ 64
            then unat latch * 2 ^ unat (shift d) else 2 ^ 64 - 1))"
proof -
  have u: "unat (ucast latch :: u64) = unat latch"
    using assms(2) by (simp add: unsigned_ucast_eq take_bit_eq_mod)
  show ?thesis
    unfolding cev_add_rnd_unat cev_clc_unat cev_rnd_unat [OF assms(1)] u by auto
qed

text \<open>
  C2, as amended. For a device with \<open>mult > 0\<close>, \<open>cev_delta2ns\<close> returns at least 1000
  for every latch, and its result does not decrease from a latch to a larger one that is
  below \<open>2^32\<close> (every latch where \<open>unsigned long\<close> has 32 bits) or that satisfies
  \<open>latch * 2^shift + mult < 2^64\<close> (the rounding addition stays below the 64-bit
  limit). The model's shifts fill with zeros, so this covers every \<open>shift\<close>, also
  those C leaves undefined.
\<close>

theorem cev_delta2ns_floor_monotone:
  fixes L L1 L2 :: "('l::len) word"
  assumes "mult (dev w) \<noteq> 0"
  shows "1000 \<le> fst (cev_delta2ns L w ismax) \<and>
     (L1 \<le> L2 \<and>
      (unat L2 < 2 ^ 32 \<or>
       unat L2 * 2 ^ unat (shift (dev w)) + unat (mult (dev w)) < 2 ^ 64) \<longrightarrow>
        fst (cev_delta2ns L1 w ismax) \<le> fst (cev_delta2ns L2 w ismax))"
proof -
  have floor: "1000 \<le> fst (cev_delta2ns L w ismax)"
    using cev_delta2ns_unat [OF assms, of L ismax] by (simp add: word_le_nat_alt)
  have mono: "fst (cev_delta2ns L1 w ismax) \<le> fst (cev_delta2ns L2 w ismax)"
    if le: "L1 \<le> L2"
      and range: "unat L2 < 2 ^ 32 \<or>
        unat L2 * 2 ^ unat (shift (dev w)) + unat (mult (dev w)) < 2 ^ 64"
  proof -
    have l12: "unat L1 \<le> unat L2"
      using le by (simp add: word_le_nat_alt)
    have b2: "unat L2 < 2 ^ 64"
      using range
    proof
      assume "unat L2 < 2 ^ 32"
      then show ?thesis by simp
    next
      assume "unat L2 * 2 ^ unat (shift (dev w)) + unat (mult (dev w)) < 2 ^ 64"
      moreover have "unat L2 \<le> unat L2 * 2 ^ unat (shift (dev w))"
        by simp
      ultimately show ?thesis by linarith
    qed
    then have b1: "unat L1 < 2 ^ 64"
      using l12 by simp
    have m: "unat (mult (dev w)) < 2 ^ 32"
      using unat_u32_bound [of "mult (dev w)"] by simp
    have m0: "0 < unat (mult (dev w))"
      using assms by (simp add: unat_gt_0)
    have "(if cev_add_rnd L1 (dev w) ismax
          then unat (cev_clc L1 (dev w)) + (unat (mult (dev w)) - 1) else unat (cev_clc L1 (dev w)))
       \<le> (if cev_add_rnd L2 (dev w) ismax
          then unat (cev_clc L2 (dev w)) + (unat (mult (dev w)) - 1) else unat (cev_clc L2 (dev w)))"
      unfolding cev_rounded_unat [OF assms b1] cev_rounded_unat [OF assms b2]
      using range
        rounded_mono [OF l12 _ m, where s = "unat (shift (dev w))"
          and g = "\<not> ismax \<or> mult (dev w) \<le> push_bit (unat (shift (dev w))) 1"]
        rounded_mono_fit [OF l12 _ m0, where s = "unat (shift (dev w))"
          and g = "\<not> ismax \<or> mult (dev w) \<le> push_bit (unat (shift (dev w))) 1"]
      by blast
    then have "unat (fst (cev_delta2ns L1 w ismax)) \<le> unat (fst (cev_delta2ns L2 w ismax))"
      unfolding cev_delta2ns_unat [OF assms]
      by (intro max.mono div_le_mono) simp_all
    then show ?thesis
      by (simp add: word_le_nat_alt)
  qed
  show ?thesis
    using floor mono by blast
qed

theorem cev_delta2ns_floor_monotone_witness:
  "mult (dev ex_world) \<noteq> 0 \<and> (2 :: 32 word) \<le> 3 \<and> unat (3 :: 32 word) < 2 ^ 32 \<and>
   1000 \<le> fst (cev_delta2ns (2 :: 32 word) ex_world False) \<and>
   fst (cev_delta2ns (2 :: 32 word) ex_world False) \<le> fst (cev_delta2ns (3 :: 32 word) ex_world False)"
  using cev_delta2ns_floor_monotone [of ex_world 2 False 2 3]
  by (simp add: ex_defs)

text \<open>
  C2 as stated fails where \<open>unsigned long\<close> has 64 bits: with \<open>mult = 7\<close> and
  \<open>shift = 0\<close> the latch \<open>2^64 - 8\<close> is rounded up (\<open>~0 - clc = 7 > 6\<close>) and the
  next latch \<open>2^64 - 7\<close> is not (\<open>~0 - clc = 6\<close>), and the result drops by one.
\<close>

theorem cev_delta2ns_monotone_counterexample:
  "mult (dev ex_world64) \<noteq> 0 \<and>
   (0xFFFFFFFFFFFFFFF8 :: 64 word) \<le> 0xFFFFFFFFFFFFFFF9 \<and>
   fst (cev_delta2ns (0xFFFFFFFFFFFFFFF8 :: 64 word) ex_world64 False) = 2635249153387078802 \<and>
   fst (cev_delta2ns (0xFFFFFFFFFFFFFFF9 :: 64 word) ex_world64 False) = 2635249153387078801 \<and>
   \<not> fst (cev_delta2ns (0xFFFFFFFFFFFFFFF8 :: 64 word) ex_world64 False)
       \<le> fst (cev_delta2ns (0xFFFFFFFFFFFFFFF9 :: 64 word) ex_world64 False)"
  by (simp add: cev_defs ex_world64_def ex_dev64_def Let_def)

lemma ceil_times:
  fixes a m :: nat
  assumes "0 < m"
  shows "a \<le> (a + (m - 1)) div m * m"
proof -
  have "a + (m - 1) < m + (a + (m - 1)) div m * m"
    using assms by (rule dividend_less_div_times)
  then show ?thesis
    using assms by simp
qed

text \<open>
  The round trip of \<open>min_delta_ticks\<close>, in numbers: when neither the shift nor the
  rounding addition reaches the 64-bit limit, the nanosecond value is the rounded-up
  quotient or the floor of 1000, and its product with \<open>mult\<close> fits in 64 bits.
\<close>

lemma min_delta_roundtrip_value:
  fixes w :: "('l::len, 'h) world"
  assumes "mult (dev w) \<noteq> 0"
    and "unat (min_delta_ticks (dev w)) * 2 ^ unat (shift (dev w)) + unat (mult (dev w)) < 2 ^ 64"
  shows "unat (ns2clc (fst (cev_delta2ns (min_delta_ticks (dev w)) w False)) (dev w)) =
     max 1000 ((unat (min_delta_ticks (dev w)) * 2 ^ unat (shift (dev w)) + (unat (mult (dev w)) - 1))
               div unat (mult (dev w)))
       * unat (mult (dev w)) div 2 ^ unat (shift (dev w))"
proof -
  define l where "l = unat (min_delta_ticks (dev w))"
  define s where "s = unat (shift (dev w))"
  define m where "m = unat (mult (dev w))"
  define ns where "ns = fst (cev_delta2ns (min_delta_ticks (dev w)) w False)"
  have H: "l * 2 ^ s + m < 2 ^ 64"
    using assms(2) by (simp add: l_def s_def m_def)
  have m0: "0 < m"
    using assms(1) by (simp add: m_def unat_gt_0)
  have "l \<le> l * 2 ^ s"
    by simp
  then have l64: "l < 2 ^ 64"
    using H by linarith
  have round: "(if cev_add_rnd (min_delta_ticks (dev w)) (dev w) False
          then unat (cev_clc (min_delta_ticks (dev w)) (dev w)) + (unat (mult (dev w)) - 1)
          else unat (cev_clc (min_delta_ticks (dev w)) (dev w))) = l * 2 ^ s + (m - 1)"
    using H cev_rounded_unat [OF assms(1) l64 [unfolded l_def], of False]
    unfolding l_def s_def m_def by simp
  have ns: "unat ns = max 1000 ((l * 2 ^ s + (m - 1)) div m)"
    unfolding ns_def cev_delta2ns_unat [OF assms(1)] round m_def ..
  have lt: "unat ns * m < 2 ^ 64"
  proof (cases "1000 \<le> (l * 2 ^ s + (m - 1)) div m")
    case True
    then have "unat ns * m = (l * 2 ^ s + (m - 1)) div m * m"
      by (simp add: ns max_def)
    also have "\<dots> \<le> l * 2 ^ s + (m - 1)"
      by (rule div_times_less_eq_dividend)
    also have "\<dots> < 2 ^ 64"
      using H m0 by simp
    finally show ?thesis .
  next
    case False
    then have "unat ns = 1000"
      by (simp add: ns max_def)
    moreover have "m < 4294967296"
      unfolding m_def by (rule unat_u32_bound)
    ultimately show ?thesis
      by simp
  qed
  have "unat ns * unat (ucast (mult (dev w)) :: u64) < 2 ^ LENGTH(64)"
    using lt by (simp add: unat_ucast_mult m_def)
  then have "unat (ns * ucast (mult (dev w))) = unat ns * unat (ucast (mult (dev w)) :: u64)"
    by (simp only: unat_mult_lem)
  then have "unat (ns * ucast (mult (dev w))) = unat ns * m"
    by (simp add: unat_ucast_mult m_def)
  then have "unat (ns2clc ns (dev w)) = unat ns * m div 2 ^ s"
    by (simp add: ns2clc_def unat_drop_bit_u64 s_def)
  then have "unat (ns2clc ns (dev w)) = max 1000 ((l * 2 ^ s + (m - 1)) div m) * m div 2 ^ s"
    by (simp only: ns)
  then show ?thesis
    unfolding ns_def l_def s_def m_def .
qed

lemma min_delta_roundtrip_u64:
  fixes w :: "('l::len, 'h) world"
  assumes "mult (dev w) \<noteq> 0"
    and "unat (min_delta_ticks (dev w)) * 2 ^ unat (shift (dev w)) + unat (mult (dev w)) < 2 ^ 64"
  shows "unat (min_delta_ticks (dev w))
           \<le> unat (ns2clc (fst (cev_delta2ns (min_delta_ticks (dev w)) w False)) (dev w))"
proof -
  define l where "l = unat (min_delta_ticks (dev w))"
  define s where "s = unat (shift (dev w))"
  define m where "m = unat (mult (dev w))"
  have m0: "0 < m"
    using assms(1) by (simp add: m_def unat_gt_0)
  have "l * 2 ^ s \<le> (l * 2 ^ s + (m - 1)) div m * m"
    using m0 by (rule ceil_times)
  also have "\<dots> \<le> max 1000 ((l * 2 ^ s + (m - 1)) div m) * m"
    by (rule mult_le_mono1) simp
  finally have ge: "l * 2 ^ s \<le> max 1000 ((l * 2 ^ s + (m - 1)) div m) * m" .
  have "l = l * 2 ^ s div 2 ^ s"
    by simp
  also have "\<dots> \<le> max 1000 ((l * 2 ^ s + (m - 1)) div m) * m div 2 ^ s"
    using ge by (rule div_le_mono)
  finally show ?thesis
    unfolding min_delta_roundtrip_value [OF assms] l_def s_def m_def .
qed

text \<open>
  For a device of at most 1 GHz (\<open>mult \<le> 2^shift\<close>) the tick count that comes back
  is at most the larger of \<open>min_delta_ticks\<close> and 1000, so it fits in
  \<open>unsigned long\<close>.
\<close>

lemma min_delta_roundtrip_fits:
  fixes w :: "('l::len, 'h) world"
  assumes "mult (dev w) \<noteq> 0"
    and "unat (min_delta_ticks (dev w)) * 2 ^ unat (shift (dev w)) + unat (mult (dev w)) < 2 ^ 64"
    and "unat (mult (dev w)) \<le> 2 ^ unat (shift (dev w))"
    and "1000 < (2::nat) ^ LENGTH('l)"
  shows "unat (ns2clc (fst (cev_delta2ns (min_delta_ticks (dev w)) w False)) (dev w))
           < 2 ^ LENGTH('l)"
proof -
  define l where "l = unat (min_delta_ticks (dev w))"
  define p where "p = (2::nat) ^ unat (shift (dev w))"
  define m where "m = unat (mult (dev w))"
  define c where "c = (l * p + (m - 1)) div m"
  have m0: "0 < m"
    using assms(1) by (simp add: m_def unat_gt_0)
  have mp: "m \<le> p"
    using assms(3) by (simp add: m_def p_def)
  have p0: "0 < p"
    by (simp add: p_def)
  have lN: "l < 2 ^ LENGTH('l)"
    unfolding l_def by (rule unsigned_less)
  have "max 1000 c * m div p \<le> max 1000 l"
  proof (cases "1000 \<le> c")
    case True
    have "c * m \<le> l * p + (m - 1)"
      unfolding c_def by (rule div_times_less_eq_dividend)
    also have "\<dots> < l * p + p"
      using mp m0 by simp
    finally have "c * m < (l + 1) * p"
      by simp
    then have "c * m div p < l + 1"
      using p0 by (simp add: less_mult_imp_div_less)
    then show ?thesis
      using True by (simp add: max_def)
  next
    case False
    have "1000 * m div p \<le> 1000 * p div p"
      using mp by (intro div_le_mono mult_le_mono2)
    then have "1000 * m div p \<le> 1000"
      using p0 by simp
    then show ?thesis
      using False by (simp add: max_def)
  qed
  also have "\<dots> < 2 ^ LENGTH('l)"
    using lN assms(4) by simp
  finally show ?thesis
    unfolding min_delta_roundtrip_value [OF assms(1,2)] l_def p_def m_def c_def .
qed

text \<open>
  C3, as amended. For a device with \<open>mult > 0\<close>, with
  \<open>min_delta_ticks * 2^shift + mult < 2^64\<close> (neither the shift nor the rounding
  addition reaches the 64-bit limit) and with a converted tick count
  \<open>ns * mult >> shift\<close> that fits in \<open>unsigned long\<close>: converting \<open>min_delta_ticks\<close> to
  nanoseconds with \<open>is_max = false\<close> and back the way the event programmer does, to
  the value \<open>(unsigned long) clc\<close> it hands to \<open>set_next_event\<close>, gives at least
  \<open>min_delta_ticks\<close>.
\<close>

theorem min_delta_roundtrip:
  fixes w :: "('l::len, 'h) world"
  assumes "mult (dev w) \<noteq> 0"
    and "unat (min_delta_ticks (dev w)) * 2 ^ unat (shift (dev w)) + unat (mult (dev w)) < 2 ^ 64"
    and "unat (ns2clc (fst (cev_delta2ns (min_delta_ticks (dev w)) w False)) (dev w))
           < 2 ^ LENGTH('l)"
  shows "min_delta_ticks (dev w)
           \<le> (ucast (ns2clc (fst (cev_delta2ns (min_delta_ticks (dev w)) w False)) (dev w))
                :: 'l word)"
proof -
  define clc where "clc = ns2clc (fst (cev_delta2ns (min_delta_ticks (dev w)) w False)) (dev w)"
  have "unat (ucast clc :: 'l word) = unat clc"
    using assms(3) by (simp add: clc_def unsigned_ucast_eq take_bit_eq_mod)
  moreover have "unat (min_delta_ticks (dev w)) \<le> unat clc"
    unfolding clc_def using assms(1,2) by (rule min_delta_roundtrip_u64)
  ultimately show ?thesis
    unfolding clc_def [symmetric] by (simp add: word_le_nat_alt)
qed

theorem min_delta_roundtrip_witness:
  "mult (dev ex_world) \<noteq> 0 \<and>
   unat (min_delta_ticks (dev ex_world)) * 2 ^ unat (shift (dev ex_world)) + unat (mult (dev ex_world)) < 2 ^ 64 \<and>
   unat (ns2clc (fst (cev_delta2ns (min_delta_ticks (dev ex_world)) ex_world False)) (dev ex_world))
     < 2 ^ LENGTH(32) \<and>
   fst (cev_delta2ns (min_delta_ticks (dev ex_world)) ex_world False) = 2001 \<and>
   (ucast (ns2clc 2001 (dev ex_world)) :: 32 word) = 2 \<and>
   min_delta_ticks (dev ex_world)
     \<le> (ucast (ns2clc (fst (cev_delta2ns (min_delta_ticks (dev ex_world)) ex_world False))
                 (dev ex_world)) :: 32 word)"
  using min_delta_roundtrip [of ex_world]
  by (simp add: ex_defs cev_defs Let_def)

lemma neg_2p32_u64: "(- 4294967296 :: u64) = 0xFFFFFFFF00000000"
  by simp

text \<open>
  C3 as stated fails in two ways on a 32-bit target, both with
  \<open>min_delta_ticks = 2^32 - 1\<close>. With \<open>mult = 1\<close> and \<open>shift = 33\<close> the shift overflows,
  \<open>clc\<close> is clamped to \<open>~0\<close>, the result is \<open>2^64 - 1\<close> nanoseconds, and that converts
  back to \<open>2^31 - 1\<close> ticks. (The right operand of \<open>&&\<close> in line 68 is not evaluated
  here, so no shift of this run is undefined in C.) With \<open>mult = 2\<close> and \<open>shift = 0\<close>
  the result is \<open>2^31\<close> nanoseconds, which converts back to \<open>2^32\<close>, and the cast to
  \<open>unsigned long\<close> leaves 0: the single-attempt programmer arms 0 ticks.
\<close>

theorem min_delta_roundtrip_counterexample:
  "mult (dev ex_world_shift33) \<noteq> 0 \<and>
   min_delta_ticks (dev ex_world_shift33) = 0xFFFFFFFF \<and>
   fst (cev_delta2ns (min_delta_ticks (dev ex_world_shift33)) ex_world_shift33 False) = 0xFFFFFFFFFFFFFFFF \<and>
   (ucast (ns2clc (fst (cev_delta2ns (min_delta_ticks (dev ex_world_shift33)) ex_world_shift33 False))
      (dev ex_world_shift33)) :: 32 word) = 0x7FFFFFFF \<and>
   \<not> min_delta_ticks (dev ex_world_shift33)
       \<le> (ucast (ns2clc (fst (cev_delta2ns (min_delta_ticks (dev ex_world_shift33)) ex_world_shift33 False))
            (dev ex_world_shift33)) :: 32 word) \<and>
   mult (dev ex_world_fast) \<noteq> 0 \<and>
   min_delta_ticks (dev ex_world_fast) = 0xFFFFFFFF \<and>
   fst (cev_delta2ns (min_delta_ticks (dev ex_world_fast)) ex_world_fast False) = 0x80000000 \<and>
   ns2clc (fst (cev_delta2ns (min_delta_ticks (dev ex_world_fast)) ex_world_fast False))
      (dev ex_world_fast) = 0x100000000 \<and>
   (ucast (ns2clc (fst (cev_delta2ns (min_delta_ticks (dev ex_world_fast)) ex_world_fast False))
      (dev ex_world_fast)) :: 32 word) = 0 \<and>
   \<not> min_delta_ticks (dev ex_world_fast)
       \<le> (ucast (ns2clc (fst (cev_delta2ns (min_delta_ticks (dev ex_world_fast)) ex_world_fast False))
            (dev ex_world_fast)) :: 32 word) \<and>
   calls (snd (clockevents_program_min_delta_once ex_ops
     (ex_world_fast\<lparr>dev := (dev ex_world_fast)\<lparr>min_delta_ns := 0x80000000\<rparr>\<rparr>))) = [Set_next_event 0]"
  by (simp add: ex_world_shift33_def ex_world_fast_def ex_defs cev_defs Let_def mask_eq_exp_minus_1
      clockevents_program_min_delta_once_def neg_2p32_u64)

text \<open>
  C4. The claim has the rounding term added exactly when the addition does not
  overflow 64 bits and it is not the case that \<open>is_max\<close> holds and \<open>mult > 2^shift\<close>;
  the comments at lines 52-54 and 66 say the same. \<open>cev_delta2ns\<close> skips the term at
  two inputs where that condition holds. On a 64-bit target with \<open>mult = 7\<close>,
  \<open>shift = 0\<close>, \<open>is_max\<close> false: at the latch \<open>2^64 - 7\<close> the sum \<open>clc + rnd\<close> is
  \<open>2^64 - 1\<close>, which does not overflow, the guard \<open>~0 - clc > rnd\<close> is \<open>6 > 6\<close>, and
  the result is ...801 where the rounded quotient is ...802; one latch lower the term is
  added. On the 32-bit 1 MHz device with \<open>shift = 32\<close> and the latch \<open>2^32 - 1\<close>:
  \<open>mult \<le> 2^32\<close> and nothing overflows, but with \<open>is_max\<close> the result is
  4294967591000 where the rounded quotient, returned without \<open>is_max\<close>, is
  4294967591001; \<open>1U << 32\<close> is not \<open>2^32\<close> (C leaves it undefined; it is 0 here and
  1 where the shift count is taken modulo 32, and \<open>mult\<close> is above both).
\<close>

theorem cev_delta2ns_rounding_skipped:
  "unat (cev_clc (0xFFFFFFFFFFFFFFF9 :: 64 word) ex_dev64) + unat (cev_rnd ex_dev64) < 2 ^ 64 \<and>
   (cev_clc (0xFFFFFFFFFFFFFFF9 :: 64 word) ex_dev64 + cev_rnd ex_dev64) div ucast (mult ex_dev64)
     = 2635249153387078802 \<and>
   fst (cev_delta2ns (0xFFFFFFFFFFFFFFF9 :: 64 word) ex_world64 False) = 2635249153387078801 \<and>
   fst (cev_delta2ns (0xFFFFFFFFFFFFFFF8 :: 64 word) ex_world64 False) = 2635249153387078802 \<and>
   unat (cev_clc (0xFFFFFFFF :: 32 word) ex_dev) + unat (cev_rnd ex_dev) < 2 ^ 64 \<and>
   unat (mult ex_dev) \<le> 2 ^ unat (shift ex_dev) \<and>
   (cev_clc (0xFFFFFFFF :: 32 word) ex_dev + cev_rnd ex_dev) div ucast (mult ex_dev)
     = 4294967591001 \<and>
   fst (cev_delta2ns (0xFFFFFFFF :: 32 word) ex_world True) = 4294967591000 \<and>
   fst (cev_delta2ns (0xFFFFFFFF :: 32 word) ex_world False) = 4294967591001"
  by (simp add: cev_defs ex_defs ex_world64_def ex_dev64_def Let_def)

section \<open>Device registry: properties\<close>

lemma notify_released_eq:
  "clockevents_released r = xs \<Longrightarrow>
   clockevents_notify_released r =
     r\<lparr>clockevents_released := [],
       clockevent_devices := rev xs @ clockevent_devices r,
       clockevents_chain_calls :=
         clockevents_chain_calls r @ map (\<lambda>d. (CLOCK_EVT_NOTIFY_ADD, Dev_arg d)) xs\<rparr>"
proof (induction xs arbitrary: r)
  case Nil
  then show ?case
    by (subst clockevents_notify_released.simps) simp
next
  case (Cons d xs)
  define r' where "r' = clockevents_do_notify CLOCK_EVT_NOTIFY_ADD (Dev_arg d)
      (r\<lparr>clockevents_released := xs, clockevent_devices := d # clockevent_devices r\<rparr>)"
  have "clockevents_released r' = xs"
    by (simp add: r'_def clockevents_do_notify_def)
  from Cons.IH [OF this] have "clockevents_notify_released r' =
      r'\<lparr>clockevents_released := [],
         clockevent_devices := rev xs @ clockevent_devices r',
         clockevents_chain_calls :=
           clockevents_chain_calls r' @ map (\<lambda>d. (CLOCK_EVT_NOTIFY_ADD, Dev_arg d)) xs\<rparr>" .
  moreover have "clockevents_notify_released r = clockevents_notify_released r'"
    using Cons.prems by (subst clockevents_notify_released.simps) (simp add: r'_def)
  ultimately show ?case
    by (simp add: r'_def clockevents_do_notify_def)
qed

lemma register_device_result:
  assumes "mode (devmem r p) = CLOCK_EVT_MODE_UNUSED"
  shows "clockevents_register_device env r p =
      Inr ((if cpumask (devmem r p) = None
            then r\<lparr>devmem := (devmem r)
                         (p := (devmem r p)\<lparr>cpumask := Some {smp_processor_id env}\<rparr>),
                   warnings_reg := (if num_possible_cpus env > 1
                                    then warnings_reg r + 1 else warnings_reg r)\<rparr>
            else r)
           \<lparr>clockevent_devices := rev (clockevents_released r) @ p # clockevent_devices r,
             clockevents_released := [],
             clockevents_chain_calls :=
               clockevents_chain_calls r @
               (CLOCK_EVT_NOTIFY_ADD, Dev_arg p) #
               map (\<lambda>d. (CLOCK_EVT_NOTIFY_ADD, Dev_arg d)) (clockevents_released r)\<rparr>)"
proof -
  define r1 where "r1 = (if cpumask (devmem r p) = None
            then r\<lparr>devmem := (devmem r)
                         (p := (devmem r p)\<lparr>cpumask := Some {smp_processor_id env}\<rparr>),
                   warnings_reg := (if num_possible_cpus env > 1
                                    then warnings_reg r + 1 else warnings_reg r)\<rparr>
            else r)"
  define r3 where "r3 = clockevents_do_notify CLOCK_EVT_NOTIFY_ADD (Dev_arg p)
      (r1\<lparr>clockevent_devices := p # clockevent_devices r1\<rparr>)"
  have f: "clockevents_released r1 = clockevents_released r"
    "clockevent_devices r1 = clockevent_devices r"
    "clockevents_chain_calls r1 = clockevents_chain_calls r"
    by (simp_all add: r1_def)
  have rel: "clockevents_released r3 = clockevents_released r"
    by (simp add: r3_def clockevents_do_notify_def f)
  have reg: "clockevents_register_device env r p = Inr (clockevents_notify_released r3)"
    using assms(1) by (simp add: clockevents_register_device_def Let_def r3_def r1_def)
  have res: "clockevents_notify_released r3 =
      r1\<lparr>clockevent_devices := rev (clockevents_released r) @ p # clockevent_devices r,
         clockevents_released := [],
         clockevents_chain_calls :=
           clockevents_chain_calls r @
           (CLOCK_EVT_NOTIFY_ADD, Dev_arg p) #
           map (\<lambda>d. (CLOCK_EVT_NOTIFY_ADD, Dev_arg d)) (clockevents_released r)\<rparr>"
    unfolding notify_released_eq [OF rel]
    by (simp add: r3_def clockevents_do_notify_def f)
  show ?thesis
    unfolding reg res r1_def [symmetric] by simp
qed

text \<open>
  Every device that registration leaves on the active list has a \<open>cpumask\<close>, if the
  devices on the two lists had one before: the walk over the active list on
  processor-dead reads through that pointer.
\<close>

lemma register_device_cpumask:
  assumes "mode (devmem r p) = CLOCK_EVT_MODE_UNUSED"
    and "\<forall>d \<in> set (clockevent_devices r) \<union> set (clockevents_released r).
           cpumask (devmem r d) \<noteq> None"
  shows "\<forall>d \<in> set (clockevent_devices (projr (clockevents_register_device env r p))).
           cpumask (devmem (projr (clockevents_register_device env r p)) d) \<noteq> None"
  using assms(2) unfolding register_device_result [OF assms(1)] by auto

text \<open>
  C8, as amended. Registering a device that is in mode UNUSED and on neither list
  succeeds. It puts the device at the head of the active list (\<open>list_add\<close> inserts
  behind the list head), broadcasts device-added for it, and then drains the released
  list from its front: each entry goes to the head of the active list and device-added
  is broadcast for it. Afterwards the released list is empty, every device \<open>b\<close> that was
  on it is on the active list, and a device-added broadcast for \<open>b\<close> is on record. A
  device without a \<open>cpumask\<close> gets the registering processor's.
\<close>

theorem register_device_flushes_backlog:
  assumes "mode (devmem r p) = CLOCK_EVT_MODE_UNUSED"
    and "p \<notin> set (clockevent_devices r) \<union> set (clockevents_released r)"
  shows "clockevents_register_device env r p =
      Inr ((if cpumask (devmem r p) = None
            then r\<lparr>devmem := (devmem r)
                         (p := (devmem r p)\<lparr>cpumask := Some {smp_processor_id env}\<rparr>),
                   warnings_reg := (if num_possible_cpus env > 1
                                    then warnings_reg r + 1 else warnings_reg r)\<rparr>
            else r)
           \<lparr>clockevent_devices := rev (clockevents_released r) @ p # clockevent_devices r,
             clockevents_released := [],
             clockevents_chain_calls :=
               clockevents_chain_calls r @
               (CLOCK_EVT_NOTIFY_ADD, Dev_arg p) #
               map (\<lambda>d. (CLOCK_EVT_NOTIFY_ADD, Dev_arg d)) (clockevents_released r)\<rparr>) \<and>
     (\<forall>b \<in> set (clockevents_released r).
        b \<in> set (clockevent_devices (projr (clockevents_register_device env r p))) \<and>
        (CLOCK_EVT_NOTIFY_ADD, Dev_arg b)
          \<in> set (clockevents_chain_calls (projr (clockevents_register_device env r p))))"
  unfolding register_device_result [OF assms(1)] by auto

theorem register_device_flushes_backlog_witness:
  "mode (devmem ex_reg 1) = CLOCK_EVT_MODE_UNUSED \<and>
   1 \<notin> set (clockevent_devices ex_reg) \<union> set (clockevents_released ex_reg) \<and>
   clockevent_devices (projr (clockevents_register_device ex_env ex_reg 1)) = [2, 1, 0] \<and>
   clockevents_released (projr (clockevents_register_device ex_env ex_reg 1)) = [] \<and>
   clockevents_chain_calls (projr (clockevents_register_device ex_env ex_reg 1)) =
     [(CLOCK_EVT_NOTIFY_ADD, Dev_arg 1), (CLOCK_EVT_NOTIFY_ADD, Dev_arg 2)]"
  using register_device_flushes_backlog [of ex_reg 1 ex_env]
  by (simp add: ex_reg_def ex_dev_def)

text \<open>
  C8 as stated has the device appended: with device 0 active and device 2 released,
  registering device 1 would give the active list 0, 1, 2. The code gives 2, 1, 0.
\<close>

theorem register_device_appends_counterexample:
  "mode (devmem ex_reg 1) = CLOCK_EVT_MODE_UNUSED \<and>
   clockevent_devices ex_reg = [0] \<and> clockevents_released ex_reg = [2] \<and>
   \<not> isl (clockevents_register_device ex_env ex_reg 1) \<and>
   clockevent_devices (projr (clockevents_register_device ex_env ex_reg 1)) = [2, 1, 0] \<and>
   clockevent_devices (projr (clockevents_register_device ex_env ex_reg 1))
     \<noteq> clockevent_devices ex_reg @ [1] @ clockevents_released ex_reg"
  by (simp add: clockevents_register_device_def clockevents_do_notify_def Let_def
      clockevents_notify_released.simps ex_reg_def ex_dev_def)

lemma drop_released_eq:
  "clockevents_released r = ds @ rest \<Longrightarrow>
   clockevents_drop_released ds r = r\<lparr>clockevents_released := rest\<rparr>"
proof (induction ds arbitrary: r)
  case Nil
  then show ?case by simp
next
  case (Cons d ds)
  have "clockevents_released (r\<lparr>clockevents_released := remove1 d (clockevents_released r)\<rparr>) = ds @ rest"
    using Cons.prems by simp
  from Cons.IH [OF this] show ?case
    by simp
qed

lemma cpu_dead_eq:
  fixes r :: "('l::len) registry" and cpu :: nat
  defines "owned \<equiv> \<lambda>d. cpu \<in> the (cpumask (devmem r d)) \<and>
      card (the (cpumask (devmem r d))) = 1 \<and> tick_broadcast_device r \<noteq> Some d"
  assumes "\<forall>d \<in> set ds. cpumask (devmem r d) \<noteq> None"
    and "\<forall>d \<in> set ds. owned d \<longrightarrow> mode (devmem r d) = CLOCK_EVT_MODE_UNUSED"
    and "\<forall>d \<in> set kept. \<not> owned d"
  shows "clockevents_cpu_dead cpu ds (r\<lparr>clockevent_devices := kept @ ds\<rparr>) =
     Inr (r\<lparr>clockevent_devices := kept @ filter (\<lambda>d. \<not> owned d) ds\<rparr>)"
  using assms(2-)
proof (induction ds arbitrary: kept)
  case Nil
  then show ?case by simp
next
  case (Cons d ds)
  obtain m where m: "cpumask (devmem r d) = Some m"
    using Cons.prems(1) by auto
  show ?case
  proof (cases "owned d")
    case True
    then have "d \<notin> set kept"
      using Cons.prems(3) by auto
    then have rm: "remove1 d (kept @ d # ds) = kept @ ds"
      by (simp add: remove1_append)
    have IH: "clockevents_cpu_dead cpu ds (r\<lparr>clockevent_devices := kept @ ds\<rparr>) =
        Inr (r\<lparr>clockevent_devices := kept @ filter (\<lambda>d. \<not> owned d) ds\<rparr>)"
      using Cons.prems by (intro Cons.IH) auto
    show ?thesis
      using True m Cons.prems(2) IH rm
      by (simp add: owned_def tick_is_broadcast_device_def)
  next
    case False
    have IH: "clockevents_cpu_dead cpu ds (r\<lparr>clockevent_devices := (kept @ [d]) @ ds\<rparr>) =
        Inr (r\<lparr>clockevent_devices := (kept @ [d]) @ filter (\<lambda>d. \<not> owned d) ds\<rparr>)"
      using Cons.prems False by (intro Cons.IH) auto
    show ?thesis
      using False m IH
      by (auto simp add: owned_def tick_is_broadcast_device_def)
  qed
qed

lemma cpu_dead_bug:
  fixes r :: "('l::len) registry" and cpu :: nat
  defines "owned \<equiv> \<lambda>d. cpu \<in> the (cpumask (devmem r d)) \<and>
      card (the (cpumask (devmem r d))) = 1 \<and> tick_broadcast_device r \<noteq> Some d"
  assumes "\<forall>d \<in> set ds. cpumask (devmem r d) \<noteq> None"
    and "\<exists>d \<in> set ds. owned d \<and> mode (devmem r d) \<noteq> CLOCK_EVT_MODE_UNUSED"
  shows "clockevents_cpu_dead cpu ds (r\<lparr>clockevent_devices := xs\<rparr>) = Inl BUG"
  using assms(2-)
proof (induction ds arbitrary: xs)
  case Nil
  then show ?case by simp
next
  case (Cons d ds)
  obtain m where m: "cpumask (devmem r d) = Some m"
    using Cons.prems(1) by auto
  show ?case
  proof (cases "owned d \<and> mode (devmem r d) \<noteq> CLOCK_EVT_MODE_UNUSED")
    case True
    then show ?thesis
      using m by (simp add: owned_def tick_is_broadcast_device_def)
  next
    case False
    then have ex: "\<exists>d \<in> set ds. owned d \<and> mode (devmem r d) \<noteq> CLOCK_EVT_MODE_UNUSED"
      using Cons.prems(2) by auto
    have all: "\<forall>d \<in> set ds. cpumask (devmem r d) \<noteq> None"
      using Cons.prems(1) by simp
    note IH = Cons.IH [OF all ex]
    show ?thesis
      using False m IH [of xs] IH [of "remove1 d xs"]
      by (auto simp add: owned_def tick_is_broadcast_device_def)
  qed
qed


text \<open>
  C9. On a registry whose active devices all have a \<open>cpumask\<close>, the processor-dead
  notification for \<open>cpu\<close> is broadcast; then the released list is emptied, whatever is
  on it, and the active list keeps, in order and with no device changed, exactly the
  devices that are not (affine to \<open>cpu\<close>, with an affinity set of one member, and not
  the broadcast device). This when each device to be removed is in mode UNUSED; when one
  of them is not, the \<open>BUG_ON\<close> fires.
\<close>

theorem cpu_dead_prunes_owned_devices:
  fixes r :: "('l::len) registry" and cpu :: nat
  defines "owned \<equiv> \<lambda>d. cpu \<in> the (cpumask (devmem r d)) \<and>
      card (the (cpumask (devmem r d))) = 1 \<and> tick_broadcast_device r \<noteq> Some d"
  assumes "\<forall>d \<in> set (clockevent_devices r). cpumask (devmem r d) \<noteq> None"
  shows "((\<forall>d \<in> set (clockevent_devices r). owned d \<longrightarrow> mode (devmem r d) = CLOCK_EVT_MODE_UNUSED) \<longrightarrow>
        clockevents_notify CLOCK_EVT_NOTIFY_CPU_DEAD (Cpu_arg cpu) r =
          Inr (r\<lparr>clockevents_chain_calls :=
                   clockevents_chain_calls r @ [(CLOCK_EVT_NOTIFY_CPU_DEAD, Cpu_arg cpu)],
                 clockevents_released := [],
                 clockevent_devices := filter (\<lambda>d. \<not> owned d) (clockevent_devices r)\<rparr>)) \<and>
     ((\<exists>d \<in> set (clockevent_devices r). owned d \<and> mode (devmem r d) \<noteq> CLOCK_EVT_MODE_UNUSED) \<longrightarrow>
        clockevents_notify CLOCK_EVT_NOTIFY_CPU_DEAD (Cpu_arg cpu) r = Inl BUG)"
proof -
  define r1 where "r1 = clockevents_do_notify CLOCK_EVT_NOTIFY_CPU_DEAD (Cpu_arg cpu) r"
  define r2 where "r2 = r1\<lparr>clockevents_released := []\<rparr>"
  have "clockevents_released r1 = clockevents_released r1 @ []"
    by simp
  then have drop: "clockevents_drop_released (clockevents_released r1) r1 = r2"
    unfolding r2_def by (rule drop_released_eq)
  have f: "devmem r2 = devmem r" "tick_broadcast_device r2 = tick_broadcast_device r"
    "clockevent_devices r2 = clockevent_devices r"
    by (simp_all add: r2_def r1_def clockevents_do_notify_def)
  have self: "r2\<lparr>clockevent_devices := clockevent_devices r\<rparr> = r2"
    using f(3) by (metis registry.surjective registry.update_convs(2))
  have run: "clockevents_notify CLOCK_EVT_NOTIFY_CPU_DEAD (Cpu_arg cpu) r =
      clockevents_cpu_dead cpu (clockevent_devices r) (r2\<lparr>clockevent_devices := clockevent_devices r\<rparr>)"
    unfolding self by (simp add: clockevents_notify_def Let_def r1_def [symmetric] drop f)
  have nn: "\<forall>d \<in> set (clockevent_devices r). cpumask (devmem r2 d) \<noteq> None"
    using assms(2) by (simp add: f)
  have ok: "clockevents_notify CLOCK_EVT_NOTIFY_CPU_DEAD (Cpu_arg cpu) r =
          Inr (r\<lparr>clockevents_chain_calls :=
                   clockevents_chain_calls r @ [(CLOCK_EVT_NOTIFY_CPU_DEAD, Cpu_arg cpu)],
                 clockevents_released := [],
                 clockevent_devices := filter (\<lambda>d. \<not> owned d) (clockevent_devices r)\<rparr>)"
    if "\<forall>d \<in> set (clockevent_devices r). owned d \<longrightarrow> mode (devmem r d) = CLOCK_EVT_MODE_UNUSED"
  proof -
    have "clockevents_cpu_dead cpu (clockevent_devices r)
            (r2\<lparr>clockevent_devices := [] @ clockevent_devices r\<rparr>) =
          Inr (r2\<lparr>clockevent_devices := [] @ filter (\<lambda>d. \<not> (cpu \<in> the (cpumask (devmem r2 d)) \<and>
              card (the (cpumask (devmem r2 d))) = 1 \<and> tick_broadcast_device r2 \<noteq> Some d))
                (clockevent_devices r)\<rparr>)"
      using nn that by (intro cpu_dead_eq) (simp_all add: f owned_def)
    then show ?thesis
      unfolding run
      by (simp add: f owned_def r2_def r1_def clockevents_do_notify_def)
  qed
  have bug: "clockevents_notify CLOCK_EVT_NOTIFY_CPU_DEAD (Cpu_arg cpu) r = Inl BUG"
    if "\<exists>d \<in> set (clockevent_devices r). owned d \<and> mode (devmem r d) \<noteq> CLOCK_EVT_MODE_UNUSED"
    unfolding run using nn that by (intro cpu_dead_bug) (simp_all add: f owned_def)
  show ?thesis
    using ok bug by blast
qed

theorem cpu_dead_prunes_owned_devices_witness:
  "cpumask (devmem ex_reg 0) \<noteq> None \<and> cpumask (devmem ex_reg 1) \<noteq> None \<and>
   cpumask (devmem ex_reg 2) \<noteq> None \<and> cpumask (devmem ex_reg 3) \<noteq> None \<and>
   clockevents_notify CLOCK_EVT_NOTIFY_CPU_DEAD (Cpu_arg 0)
       (ex_reg\<lparr>clockevent_devices := [0, 1, 2, 3], clockevents_released := [4]\<rparr>) =
     Inr (ex_reg\<lparr>clockevents_chain_calls := [(CLOCK_EVT_NOTIFY_CPU_DEAD, Cpu_arg 0)],
                clockevents_released := [], clockevent_devices := [1, 2, 3]\<rparr>)"
  using cpu_dead_prunes_owned_devices
    [of "ex_reg\<lparr>clockevent_devices := [0, 1, 2, 3], clockevents_released := [4]\<rparr>" 0]
  by (simp add: ex_reg_def ex_dev_def)

end
